theory Spec2Isabelle
  imports Main
begin

section \<open>Configuration constants (config.ts)\<close>

text \<open>
  The string constants of \<^verbatim>\<open>TOKEN_KEYS\<close>, \<^verbatim>\<open>AUTH_ENDPOINTS\<close>,
  \<^verbatim>\<open>AUTH_ERRORS\<close>, \<^verbatim>\<open>AUTH_SUCCESS\<close>, \<^verbatim>\<open>OAUTH_CONFIG.VSCODE\<close> and
  \<^verbatim>\<open>AUTH_CONFIG\<close>, with the object name as a prefix.
\<close>

definition TOKEN_KEYS_ACCESS_TOKEN :: string where
  "TOKEN_KEYS_ACCESS_TOKEN = ''access_token''"

definition TOKEN_KEYS_REFRESH_TOKEN :: string where
  "TOKEN_KEYS_REFRESH_TOKEN = ''refresh_token''"

definition TOKEN_KEYS_SESSION_ID :: string where
  "TOKEN_KEYS_SESSION_ID = ''session_id''"

definition TOKEN_KEYS_ORGANIZATION_ID :: string where
  "TOKEN_KEYS_ORGANIZATION_ID = ''organization_id''"

definition TOKEN_KEYS_PKCE_PREFIX :: string where
  "TOKEN_KEYS_PKCE_PREFIX = ''pkce_''"

definition AUTH_ENDPOINTS_EXTENSION_CALLBACK :: string where
  "AUTH_ENDPOINTS_EXTENSION_CALLBACK = ''/api/extension/auth/callback''"

definition AUTH_ENDPOINTS_REFRESH_TOKEN :: string where
  "AUTH_ENDPOINTS_REFRESH_TOKEN = ''/api/auth/refresh-token''"

definition AUTH_ENDPOINTS_VALIDATE_SESSION :: string where
  "AUTH_ENDPOINTS_VALIDATE_SESSION = ''/api/auth/validate-session''"

definition AUTH_ENDPOINTS_SIGN_OUT :: string where
  "AUTH_ENDPOINTS_SIGN_OUT = ''/api/auth/sign-out''"

definition AUTH_ERRORS_MISSING_PARAMS :: string where
  "AUTH_ERRORS_MISSING_PARAMS = ''Missing authentication parameters''"

definition AUTH_ERRORS_INVALID_STATE :: string where
  "AUTH_ERRORS_INVALID_STATE = ''Invalid authentication state''"

definition AUTH_ERRORS_TOKEN_EXCHANGE_FAILED :: string where
  "AUTH_ERRORS_TOKEN_EXCHANGE_FAILED = ''Token exchange failed''"

definition AUTH_SUCCESS_AUTHENTICATED :: string where
  "AUTH_SUCCESS_AUTHENTICATED = ''Successfully authenticated with Softcodes!''"

definition AUTH_SUCCESS_SIGNED_OUT :: string where
  "AUTH_SUCCESS_SIGNED_OUT = ''Signed out from Softcodes''"

definition OAUTH_CONFIG_VSCODE_REDIRECT_URI :: string where
  "OAUTH_CONFIG_VSCODE_REDIRECT_URI = ''vscode-softcodes://auth/callback''"

definition OAUTH_CONFIG_VSCODE_GRANT_TYPE :: string where
  "OAUTH_CONFIG_VSCODE_GRANT_TYPE = ''authorization_code''"

definition AUTH_CONFIG_PRODUCTION_API_BASE_URL :: string where
  "AUTH_CONFIG_PRODUCTION_API_BASE_URL = ''https://softcodes.ai''"

definition AUTH_CONFIG_DEVELOPMENT_API_BASE_URL :: string where
  "AUTH_CONFIG_DEVELOPMENT_API_BASE_URL = ''http://localhost:3000''"


section \<open>Values of the program\<close>

text \<open>
  A JavaScript value of type \<^verbatim>\<open>string | undefined\<close> is a \<^typ>\<open>string option\<close>.
  The source tests such values by truthiness (\<^verbatim>\<open>if (x)\<close>, \<^verbatim>\<open>!x\<close>, \<^verbatim>\<open>x || y\<close>):
  \<^verbatim>\<open>undefined\<close>, \<^verbatim>\<open>null\<close> and the empty string are falsy, every other string
  is truthy.
\<close>

definition truthy :: "string option \<Rightarrow> bool" where
  "truthy x = (case x of None \<Rightarrow> False | Some v \<Rightarrow> v \<noteq> [])"

text \<open>\<^verbatim>\<open>x || fallback\<close> on a string that may be missing.\<close>

definition or_else :: "string option \<Rightarrow> string \<Rightarrow> string" where
  "or_else x fallback = (case x of None \<Rightarrow> fallback | Some v \<Rightarrow> if v = [] then fallback else v)"

text \<open>
  A field declared \<^verbatim>\<open>f?: string | null\<close> has three shapes: missing, \<^verbatim>\<open>null\<close>,
  or a string.
\<close>

datatype 'a nullable = Undefined | Null | Value 'a

text \<open>The interface \<^verbatim>\<open>AuthTokens\<close> (unifiedAuthService.ts, lines 18-23).\<close>

record AuthTokens =
  access_token :: string
  refresh_token :: string
  session_id :: "string option"
  organization_id :: "string nullable"

text \<open>
  What a rejected promise carries: an \<^verbatim>\<open>Error\<close> thrown by the source with its
  message, the \<^verbatim>\<open>TypeError\<close> of a \<^verbatim>\<open>fetch\<close> that does not reach the server, or the
  \<^verbatim>\<open>SyntaxError\<close> of a \<^verbatim>\<open>response.json()\<close> whose body does not parse.
\<close>

datatype error = Error string | TypeError | SyntaxError


section \<open>The host and the network as the session manager sees them\<close>

text \<open>
  An outgoing request as \<^verbatim>\<open>fetch\<close> receives it. Headers are a JavaScript object,
  that is a map from (case-sensitive) property names to values. A body built by
  \<^verbatim>\<open>JSON.stringify\<close> from an object of string fields is kept as that object
  (\<open>JsonObject\<close>, fields in source order); a body passed through by the caller is an
  opaque string (\<open>RawBody\<close>).
\<close>

datatype body = JsonObject "(string \<times> string) list" | RawBody string

record http_request =
  url :: string
  http_method :: "string option"
  headers :: "string \<rightharpoonup> string"
  body :: "body option"

text \<open>
  The outcome of one \<^verbatim>\<open>fetch\<close> against the authentication backend. The session
  manager reads only \<^verbatim>\<open>response.ok\<close> and \<^verbatim>\<open>response.json()\<close>:
  \<^item> \<open>Rejected\<close>: the promise rejects (network failure, timeout);
  \<^item> \<open>NotOk b\<close>: a non-2xx response; \<open>b\<close> is \<open>None\<close> when the body does not
    parse, else \<open>Some e\<close> for an object whose \<^verbatim>\<open>error\<close> field is \<open>e\<close>;
  \<^item> \<open>Ok2xx t\<close>: a 2xx response; \<open>t\<close> is \<open>None\<close> when the body does not parse,
    else the \<^verbatim>\<open>AuthTokens\<close> object the source declares it to be.
\<close>

datatype fetch_result =
    Rejected
  | NotOk "string option option"
  | Ok2xx "AuthTokens option"

datatype ui_message =
    InformationMessage string
  | ErrorMessage string error

datatype console_entry =
    ConsoleWarn string
  | ConsoleError string error

text \<open>
  The state the service reads and writes. \<open>secrets\<close> is the host's secret storage
  (\<^verbatim>\<open>context.secrets\<close>), taken as a reliable key-value store: \<^verbatim>\<open>get\<close>, \<^verbatim>\<open>store\<close>
  and \<^verbatim>\<open>delete\<close> always resolve. \<open>pendingAuth\<close> is the in-memory map of the class, from
  a state to the pair of \<^verbatim>\<open>codeVerifier\<close> and \<^verbatim>\<open>state\<close>.
  \<open>network\<close> is the script of the outcomes of the coming \<^verbatim>\<open>fetch\<close> calls, in order,
  and \<open>fetched\<close> the requests issued so far. \<open>shown\<close>, \<open>executed\<close> and \<open>console\<close> record
  \<^verbatim>\<open>vscode.window.show...Message\<close>, \<^verbatim>\<open>vscode.commands.executeCommand\<close> and
  \<^verbatim>\<open>console.warn/error\<close>. \<open>configuredUrl\<close>, \<open>development\<close> and \<open>extensionVersion\<close> are
  the configuration read by \<^verbatim>\<open>getBackendUrl\<close>, \<^verbatim>\<open>getAuthConfig\<close> and
  \<^verbatim>\<open>generateUserAgent\<close>.
\<close>

record auth_state =
  secrets :: "string \<rightharpoonup> string"
  pendingAuth :: "string \<rightharpoonup> string \<times> string"
  network :: "fetch_result list"
  fetched :: "http_request list"
  shown :: "ui_message list"
  executed :: "string list"
  console :: "console_entry list"
  configuredUrl :: "string option"
  development :: bool
  extensionVersion :: "string option"

definition secrets_get :: "string \<Rightarrow> auth_state \<Rightarrow> string option" where
  "secrets_get key s = secrets s key"

definition secrets_store :: "string \<Rightarrow> string \<Rightarrow> auth_state \<Rightarrow> auth_state" where
  "secrets_store key v s = s\<lparr>secrets := (secrets s)(key \<mapsto> v)\<rparr>"

definition secrets_delete :: "string \<Rightarrow> auth_state \<Rightarrow> auth_state" where
  "secrets_delete key s = s\<lparr>secrets := (secrets s)(key := None)\<rparr>"

definition showInformationMessage :: "string \<Rightarrow> auth_state \<Rightarrow> auth_state" where
  "showInformationMessage m s = s\<lparr>shown := shown s @ [InformationMessage m]\<rparr>"

definition showErrorMessage :: "string \<Rightarrow> error \<Rightarrow> auth_state \<Rightarrow> auth_state" where
  "showErrorMessage prefix e s = s\<lparr>shown := shown s @ [ErrorMessage prefix e]\<rparr>"

definition executeCommand :: "string \<Rightarrow> auth_state \<Rightarrow> auth_state" where
  "executeCommand c s = s\<lparr>executed := executed s @ [c]\<rparr>"

definition console_warn :: "string \<Rightarrow> auth_state \<Rightarrow> auth_state" where
  "console_warn m s = s\<lparr>console := console s @ [ConsoleWarn m]\<rparr>"

definition console_error :: "string \<Rightarrow> error \<Rightarrow> auth_state \<Rightarrow> auth_state" where
  "console_error m e s = s\<lparr>console := console s @ [ConsoleError m e]\<rparr>"

text \<open>
  \<^verbatim>\<open>fetch\<close>: logs the request and takes the next outcome of the script; with the
  script used up the network is unreachable and the promise rejects.
\<close>

definition fetch :: "http_request \<Rightarrow> auth_state \<Rightarrow> fetch_result \<times> auth_state" where
  "fetch req s =
     (case network s of
        [] \<Rightarrow> (Rejected, s\<lparr>fetched := fetched s @ [req]\<rparr>)
      | r # rest \<Rightarrow> (r, s\<lparr>network := rest, fetched := fetched s @ [req]\<rparr>))"

text \<open>\<^verbatim>\<open>generateUserAgent\<close> and \<^verbatim>\<open>getBackendUrl\<close> (lines 382-393).\<close>

definition generateUserAgent :: "auth_state \<Rightarrow> string" where
  "generateUserAgent s = ''VSCode-Softcodes/'' @ or_else (extensionVersion s) ''unknown''"

definition getBackendUrl :: "auth_state \<Rightarrow> string" where
  "getBackendUrl s =
     or_else (configuredUrl s)
       (if development s then AUTH_CONFIG_DEVELOPMENT_API_BASE_URL
        else AUTH_CONFIG_PRODUCTION_API_BASE_URL)"

definition json_headers :: "auth_state \<Rightarrow> string \<rightharpoonup> string" where
  "json_headers s =
     [''Content-Type'' \<mapsto> ''application/json'', ''User-Agent'' \<mapsto> generateUserAgent s]"


section \<open>The session manager (unifiedAuthService.ts)\<close>

text \<open>\<^verbatim>\<open>storeTokens\<close> (lines 268-279).\<close>

definition storeTokens :: "AuthTokens \<Rightarrow> auth_state \<Rightarrow> auth_state" where
  "storeTokens tokens s =
     (let s1 = secrets_store TOKEN_KEYS_ACCESS_TOKEN (access_token tokens) s;
          s2 = secrets_store TOKEN_KEYS_REFRESH_TOKEN (refresh_token tokens) s1;
          s3 = (case session_id tokens of
                  Some sid \<Rightarrow> if sid \<noteq> [] then secrets_store TOKEN_KEYS_SESSION_ID sid s2 else s2
                | None \<Rightarrow> s2)
      in (case organization_id tokens of
            Value org \<Rightarrow> if org \<noteq> [] then secrets_store TOKEN_KEYS_ORGANIZATION_ID org s3 else s3
          | Null \<Rightarrow> s3
          | Undefined \<Rightarrow> s3))"

text \<open>
  \<^verbatim>\<open>signOut\<close> (lines 284-322). The four deletions of \<^verbatim>\<open>Promise.all\<close> commute; the
  in-memory map is cleared; then the inner \<^verbatim>\<open>try\<close> reads the session id back from
  the store and, if it is truthy, posts it to the sign-out endpoint. A rejected
  \<^verbatim>\<open>fetch\<close> is caught by the inner \<^verbatim>\<open>catch\<close> and logged with \<^verbatim>\<open>console.warn\<close>.
\<close>

definition signOut_request :: "string \<Rightarrow> auth_state \<Rightarrow> http_request" where
  "signOut_request sessionId s =
     \<lparr>url = getBackendUrl s @ AUTH_ENDPOINTS_SIGN_OUT,
      http_method = Some ''POST'',
      headers = json_headers s,
      body = Some (JsonObject [(''session_id'', sessionId)])\<rparr>"

definition signOut_notify :: "auth_state \<Rightarrow> (error + unit) \<times> auth_state" where
  "signOut_notify s =
     (case secrets_get TOKEN_KEYS_SESSION_ID s of
        None \<Rightarrow> (Inr (), s)
      | Some sessionId \<Rightarrow>
          if sessionId = [] then (Inr (), s)
          else (case fetch (signOut_request sessionId s) s of
                  (Rejected, s1) \<Rightarrow> (Inl TypeError, s1)
                | (_, s1) \<Rightarrow> (Inr (), s1)))"

definition signOut_try :: "auth_state \<Rightarrow> (error + unit) \<times> auth_state" where
  "signOut_try s =
     (let s1 = secrets_delete TOKEN_KEYS_ACCESS_TOKEN s;
          s2 = secrets_delete TOKEN_KEYS_REFRESH_TOKEN s1;
          s3 = secrets_delete TOKEN_KEYS_SESSION_ID s2;
          s4 = secrets_delete TOKEN_KEYS_ORGANIZATION_ID s3;
          s5 = s4\<lparr>pendingAuth := Map.empty\<rparr>;
          s6 = (case signOut_notify s5 of
                  (Inl e, s') \<Rightarrow> console_warn ''Failed to notify backend of sign out:'' s'
                | (Inr _, s') \<Rightarrow> s')
      in (Inr (), showInformationMessage AUTH_SUCCESS_SIGNED_OUT s6))"

definition signOut :: "auth_state \<Rightarrow> (error + unit) \<times> auth_state" where
  "signOut s =
     (case signOut_try s of
        (Inl e, s') \<Rightarrow>
          (Inr (), showErrorMessage ''Sign out failed: '' e (console_error ''Sign out failed:'' e s'))
      | (Inr u, s') \<Rightarrow> (Inr u, s'))"

text \<open>\<^verbatim>\<open>refreshAccessToken\<close> (lines 230-263).\<close>

definition refresh_request :: "string \<Rightarrow> auth_state \<Rightarrow> http_request" where
  "refresh_request refreshToken s =
     \<lparr>url = getBackendUrl s @ AUTH_ENDPOINTS_REFRESH_TOKEN,
      http_method = Some ''POST'',
      headers = json_headers s,
      body = Some (JsonObject [(''refresh_token'', refreshToken), (''client_type'', ''vscode'')])\<rparr>"

definition refreshAccessToken_try ::
  "string \<Rightarrow> auth_state \<Rightarrow> (error + string option) \<times> auth_state" where
  "refreshAccessToken_try refreshToken s =
     (case fetch (refresh_request refreshToken s) s of
        (Rejected, s1) \<Rightarrow> (Inl TypeError, s1)
      | (NotOk b, s1) \<Rightarrow>
          (let s2 = console_warn ''Token refresh failed, clearing stored tokens'' s1
           in case signOut s2 of
                (Inl e, s3) \<Rightarrow> (Inl e, s3)
              | (Inr _, s3) \<Rightarrow> (Inr None, s3))
      | (Ok2xx None, s1) \<Rightarrow> (Inl SyntaxError, s1)
      | (Ok2xx (Some tokens), s1) \<Rightarrow> (Inr (Some (access_token tokens)), storeTokens tokens s1))"

definition refreshAccessToken ::
  "string \<Rightarrow> auth_state \<Rightarrow> (error + string option) \<times> auth_state" where
  "refreshAccessToken refreshToken s =
     (case refreshAccessToken_try refreshToken s of
        (Inl e, s1) \<Rightarrow>
          (case signOut (console_error ''Token refresh failed:'' e s1) of
             (Inl e', s2) \<Rightarrow> (Inl e', s2)
           | (Inr _, s2) \<Rightarrow> (Inr None, s2))
      | (Inr r, s1) \<Rightarrow> (Inr r, s1))"

text \<open>\<^verbatim>\<open>getAccessToken\<close> (lines 178-190).\<close>

definition getAccessToken :: "auth_state \<Rightarrow> (error + string option) \<times> auth_state" where
  "getAccessToken s =
     (let accessToken = secrets_get TOKEN_KEYS_ACCESS_TOKEN s in
      if \<not> truthy accessToken then
        (case secrets_get TOKEN_KEYS_REFRESH_TOKEN s of
           Some refreshToken \<Rightarrow>
             if refreshToken \<noteq> [] then refreshAccessToken refreshToken s
             else (Inr accessToken, s)
         | None \<Rightarrow> (Inr accessToken, s))
      else (Inr accessToken, s))"

text \<open>
  \<^verbatim>\<open>handleCallback\<close> (lines 118-173). The argument is the query of the callback
  URI as \<^verbatim>\<open>URLSearchParams\<close> parses it: a list of name-value pairs, of which
  \<^verbatim>\<open>params.get\<close> returns the first value under a name.
\<close>

definition callback_request :: "string \<Rightarrow> string \<Rightarrow> string \<Rightarrow> auth_state \<Rightarrow> http_request" where
  "callback_request code codeVerifier st s =
     \<lparr>url = getBackendUrl s @ AUTH_ENDPOINTS_EXTENSION_CALLBACK,
      http_method = Some ''POST'',
      headers = json_headers s,
      body = Some (JsonObject
        [(''code'', code), (''code_verifier'', codeVerifier), (''state'', st),
         (''redirect_uri'', OAUTH_CONFIG_VSCODE_REDIRECT_URI),
         (''grant_type'', OAUTH_CONFIG_VSCODE_GRANT_TYPE)])\<rparr>"

definition handleCallback_try ::
  "(string \<times> string) list \<Rightarrow> auth_state \<Rightarrow> (error + unit) \<times> auth_state" where
  "handleCallback_try params s =
     (let code = map_of params ''code'';
          state = map_of params ''state''
      in if \<not> truthy code \<or> \<not> truthy state then (Inl (Error AUTH_ERRORS_MISSING_PARAMS), s)
         else
           (let codeVerifier = secrets_get (TOKEN_KEYS_PKCE_PREFIX @ the state) s
            in if \<not> truthy codeVerifier then (Inl (Error AUTH_ERRORS_INVALID_STATE), s)
               else
                 (case fetch (callback_request (the code) (the codeVerifier) (the state) s) s of
                    (Rejected, s1) \<Rightarrow> (Inl TypeError, s1)
                  | (NotOk b, s1) \<Rightarrow>
                      (Inl (Error (or_else
                         (case b of None \<Rightarrow> Some AUTH_ERRORS_TOKEN_EXCHANGE_FAILED | Some e \<Rightarrow> e)
                         AUTH_ERRORS_TOKEN_EXCHANGE_FAILED)), s1)
                  | (Ok2xx None, s1) \<Rightarrow> (Inl SyntaxError, s1)
                  | (Ok2xx (Some tokens), s1) \<Rightarrow>
                      (let s2 = storeTokens tokens s1;
                           s3 = secrets_delete (TOKEN_KEYS_PKCE_PREFIX @ the state) s2;
                           s4 = s3\<lparr>pendingAuth := (pendingAuth s3)(the state := None)\<rparr>;
                           s5 = showInformationMessage AUTH_SUCCESS_AUTHENTICATED s4
                       in (Inr (), executeCommand ''softcodes.onAuthenticated'' s5)))))"

definition handleCallback ::
  "(string \<times> string) list \<Rightarrow> auth_state \<Rightarrow> (error + unit) \<times> auth_state" where
  "handleCallback params s =
     (case handleCallback_try params s of
        (Inl e, s') \<Rightarrow>
          (Inr (), showErrorMessage ''Authentication callback failed: '' e
                     (console_error ''Authentication callback failed:'' e s'))
      | (Inr u, s') \<Rightarrow> (Inr u, s'))"

text \<open>\<^verbatim>\<open>validateSession\<close> (lines 335-363).\<close>

definition validate_request :: "string \<Rightarrow> string \<Rightarrow> auth_state \<Rightarrow> http_request" where
  "validate_request accessToken sessionId s =
     \<lparr>url = getBackendUrl s @ AUTH_ENDPOINTS_VALIDATE_SESSION,
      http_method = Some ''POST'',
      headers = (json_headers s)(''Authorization'' \<mapsto> ''Bearer '' @ accessToken),
      body = Some (JsonObject [(''session_id'', sessionId), (''client_type'', ''vscode'')])\<rparr>"

definition validateSession_try :: "auth_state \<Rightarrow> (error + bool) \<times> auth_state" where
  "validateSession_try s =
     (case getAccessToken s of
        (Inl e, s1) \<Rightarrow> (Inl e, s1)
      | (Inr accessToken, s1) \<Rightarrow>
          (let sessionId = secrets_get TOKEN_KEYS_SESSION_ID s1
           in if \<not> truthy accessToken \<or> \<not> truthy sessionId then (Inr False, s1)
              else (case fetch (validate_request (the accessToken) (the sessionId) s1) s1 of
                      (Rejected, s2) \<Rightarrow> (Inl TypeError, s2)
                    | (NotOk b, s2) \<Rightarrow> (Inr False, s2)
                    | (Ok2xx t, s2) \<Rightarrow> (Inr True, s2))))"

definition validateSession :: "auth_state \<Rightarrow> (error + bool) \<times> auth_state" where
  "validateSession s =
     (case validateSession_try s of
        (Inl e, s') \<Rightarrow> (Inr False, console_error ''Session validation failed:'' e s')
      | (Inr b, s') \<Rightarrow> (Inr b, s'))"


section \<open>The authenticated API client (ApiClient)\<close>

text \<open>
  The options of a request (\<^verbatim>\<open>RequestInit\<close>), as far as the callers in this
  repository set them: \<^verbatim>\<open>method\<close>, \<^verbatim>\<open>headers\<close> (a plain object) and \<^verbatim>\<open>body\<close>.
\<close>

record RequestInit =
  init_method :: "string option"
  init_headers :: "(string \<rightharpoonup> string) option"
  init_body :: "string option"

text \<open>A parsed JSON body of the API: its \<^verbatim>\<open>message\<close> field and the rest.\<close>

datatype json = Json (message: "string option") (content: string)

text \<open>
  The outcome of one \<^verbatim>\<open>fetch\<close> of the API client: the promise rejects, or a
  response arrives with its status and its body (\<open>None\<close> when
  \<^verbatim>\<open>response.json()\<close> rejects).
\<close>

datatype api_fetch_result = ApiRejected | ApiResponse nat "json option"

definition response_ok :: "nat \<Rightarrow> bool" where
  "response_ok status = (200 \<le> status \<and> status \<le> 299)"

text \<open>
  The client's view of the world: \<open>session\<close> is the state of the session manager
  behind \<^verbatim>\<open>authService\<close>, of any type \<open>'w\<close>; \<open>api_network\<close> scripts the outcomes of
  the client's own \<^verbatim>\<open>fetch\<close> calls, \<open>api_fetched\<close> logs them, and \<open>api_executed\<close>
  logs \<^verbatim>\<open>vscode.commands.executeCommand\<close>.
\<close>

record 'w api_state =
  session :: 'w
  api_network :: "api_fetch_result list"
  api_fetched :: "http_request list"
  api_executed :: "string list"

text \<open>
  The object literal passed to \<^verbatim>\<open>fetch\<close> (lines 24-31): the caller's options are
  spread first, then \<^verbatim>\<open>headers\<close> is replaced by the caller's headers spread first
  and the two fixed headers written after them.
\<close>

definition request_init :: "string \<Rightarrow> string \<Rightarrow> RequestInit \<Rightarrow> string \<Rightarrow> http_request" where
  "request_init baseUrl endpoint options accessToken =
     \<lparr>url = baseUrl @ endpoint,
      http_method = init_method options,
      headers = (case init_headers options of None \<Rightarrow> Map.empty | Some h \<Rightarrow> h)
                  (''Authorization'' \<mapsto> ''Bearer '' @ accessToken,
                   ''Content-Type'' \<mapsto> ''application/json''),
      body = map_option RawBody (init_body options)\<rparr>"

text \<open>
  The headers the caller passed, as \<open>request_init\<close> spreads them: none when the
  options have no \<^verbatim>\<open>headers\<close>.
\<close>

definition caller_headers :: "RequestInit \<Rightarrow> string \<rightharpoonup> string" where
  "caller_headers options = (case init_headers options of None \<Rightarrow> Map.empty | Some h \<Rightarrow> h)"

text \<open>
  How \<^verbatim>\<open>fetch\<close> reads the names of that object. The property names of a
  JavaScript object are case-sensitive, the names of HTTP headers are not:
  \<^verbatim>\<open>fetch\<close> puts two properties whose names differ only in the case of ASCII
  letters under one header and sends both values. \<open>same_header_name\<close> is that
  comparison of names.
\<close>

definition ascii_lowercase :: "char \<Rightarrow> char" where
  "ascii_lowercase c =
     (case map_of (zip ''ABCDEFGHIJKLMNOPQRSTUVWXYZ'' ''abcdefghijklmnopqrstuvwxyz'') c of
        Some l \<Rightarrow> l
      | None \<Rightarrow> c)"

definition same_header_name :: "string \<Rightarrow> string \<Rightarrow> bool" where
  "same_header_name a b = (map ascii_lowercase a = map ascii_lowercase b)"

text \<open>
  \<^verbatim>\<open>ApiClient.request\<close> (lines 17-52), over any session manager: \<open>getToken\<close> is
  \<^verbatim>\<open>this.authService.getAccessToken\<close>. Every round of the recursion consumes one
  outcome of the script, which is what the recursion is on; the result comes with
  the state and the unread rest of the script.
\<close>

fun request ::
  "('w \<Rightarrow> (error + string option) \<times> 'w) \<Rightarrow> string \<Rightarrow> string \<Rightarrow> RequestInit \<Rightarrow>
   api_fetch_result list \<Rightarrow> 'w \<Rightarrow> http_request list \<Rightarrow> string list \<Rightarrow>
   (error + json) \<times> 'w api_state" where
  "request getToken baseUrl endpoint options script w sent cmds =
     (case getToken w of
        (Inl e, w1) \<Rightarrow>
          (Inl e, \<lparr>session = w1, api_network = script, api_fetched = sent, api_executed = cmds\<rparr>)
      | (Inr accessToken, w1) \<Rightarrow>
          if \<not> truthy accessToken then
            (Inl (Error ''Not authenticated''),
             \<lparr>session = w1, api_network = script, api_fetched = sent, api_executed = cmds\<rparr>)
          else
            (let sent1 = sent @ [request_init baseUrl endpoint options (the accessToken)] in
             case script of
               [] \<Rightarrow>
                 (Inl TypeError,
                  \<lparr>session = w1, api_network = [], api_fetched = sent1, api_executed = cmds\<rparr>)
             | ApiRejected # rest \<Rightarrow>
                 (Inl TypeError,
                  \<lparr>session = w1, api_network = rest, api_fetched = sent1, api_executed = cmds\<rparr>)
             | ApiResponse status parsed # rest \<Rightarrow>
                 if status = 401 then
                   (case getToken w1 of
                      (Inl e, w2) \<Rightarrow>
                        (Inl e,
                         \<lparr>session = w2, api_network = rest, api_fetched = sent1,
                          api_executed = cmds\<rparr>)
                    | (Inr newToken, w2) \<Rightarrow>
                        if truthy newToken \<and> newToken \<noteq> accessToken then
                          request getToken baseUrl endpoint options rest w2 sent1 cmds
                        else
                          (Inl (Error ''Authentication required''),
                           \<lparr>session = w2, api_network = rest, api_fetched = sent1,
                            api_executed = cmds @ [''softcodes.authenticate'']\<rparr>))
                 else if \<not> response_ok status then
                   (case parsed of
                      None \<Rightarrow>
                        (Inl SyntaxError,
                         \<lparr>session = w1, api_network = rest, api_fetched = sent1,
                          api_executed = cmds\<rparr>)
                    | Some err \<Rightarrow>
                        (Inl (Error (or_else (message err) ''API request failed'')),
                         \<lparr>session = w1, api_network = rest, api_fetched = sent1,
                          api_executed = cmds\<rparr>))
                 else
                   (case parsed of
                      None \<Rightarrow>
                        (Inl SyntaxError,
                         \<lparr>session = w1, api_network = rest, api_fetched = sent1,
                          api_executed = cmds\<rparr>)
                    | Some result \<Rightarrow>
                        (Inr result,
                         \<lparr>session = w1, api_network = rest, api_fetched = sent1,
                          api_executed = cmds\<rparr>))))"


declare request.simps [simp del]


section \<open>The session manager with other flows in between\<close>

text \<open>
  The secret storage is shared by every flow of the extension, and every
  \<^verbatim>\<open>await\<close> of the client is a point where another flow may run: a completed
  sign-in (\<^verbatim>\<open>handleCallback\<close>) or a refresh started elsewhere stores new tokens
  with \<open>storeTokens\<close>. \<open>getAccessToken_interleaved\<close> is \<open>getAccessToken\<close> as a caller
  observes it then: the first component lists, for each coming call, the tokens
  another flow has stored just before it (\<open>None\<close>: nothing happened).
\<close>

definition getAccessToken_interleaved ::
  "AuthTokens option list \<times> auth_state \<Rightarrow>
   (error + string option) \<times> (AuthTokens option list \<times> auth_state)" where
  "getAccessToken_interleaved w =
     (case w of
        (events, s) \<Rightarrow>
          (case getAccessToken (case events of Some t # _ \<Rightarrow> storeTokens t s | _ \<Rightarrow> s) of
             (r, s') \<Rightarrow> (r, (tl events, s'))))"


text \<open>
  The next outcome of the network delivers no credentials: the request does not
  reach the backend, the response is not 2xx, or its body does not parse. This is
  when a refresh or a token exchange fails.
\<close>

definition delivers_no_tokens :: "fetch_result list \<Rightarrow> bool" where
  "delivers_no_tokens script =
     (case script of
        [] \<Rightarrow> True
      | Rejected # _ \<Rightarrow> True
      | NotOk _ # _ \<Rightarrow> True
      | Ok2xx None # _ \<Rightarrow> True
      | Ok2xx (Some _) # _ \<Rightarrow> False)"


section \<open>Concrete scenarios\<close>

text \<open>
  States and payloads the theorems below are evaluated on. The values follow the
  repository's tests of the service.
\<close>

definition fresh_state :: auth_state where
  "fresh_state =
     \<lparr>secrets = Map.empty, pendingAuth = Map.empty, network = [], fetched = [], shown = [],
      executed = [], console = [], configuredUrl = None, development = False,
      extensionVersion = None\<rparr>"

definition signed_in_state :: auth_state where
  "signed_in_state =
     fresh_state\<lparr>secrets :=
       [TOKEN_KEYS_ACCESS_TOKEN \<mapsto> ''access-token-123'',
        TOKEN_KEYS_REFRESH_TOKEN \<mapsto> ''refresh-token-456'',
        TOKEN_KEYS_SESSION_ID \<mapsto> ''session-789'',
        TOKEN_KEYS_ORGANIZATION_ID \<mapsto> ''org-123'']\<rparr>"

definition refreshed_tokens :: AuthTokens where
  "refreshed_tokens =
     \<lparr>access_token = ''new-access-token'', refresh_token = ''new-refresh-token'',
      session_id = Some ''new-session'', organization_id = Undefined\<rparr>"

definition personal_tokens :: AuthTokens where
  "personal_tokens =
     \<lparr>access_token = ''new-access-token'', refresh_token = ''new-refresh-token'',
      session_id = Some ''new-session'', organization_id = Null\<rparr>"

definition expired_state :: auth_state where
  "expired_state =
     fresh_state\<lparr>secrets :=
       [TOKEN_KEYS_REFRESH_TOKEN \<mapsto> ''refresh-token-123'',
        TOKEN_KEYS_SESSION_ID \<mapsto> ''session-789'',
        TOKEN_KEYS_ORGANIZATION_ID \<mapsto> ''org-123'']\<rparr>"

definition pending_state :: auth_state where
  "pending_state =
     fresh_state\<lparr>secrets := [TOKEN_KEYS_PKCE_PREFIX @ ''test-state'' \<mapsto> ''test-verifier''],
                 pendingAuth := [''test-state'' \<mapsto> (''test-verifier'', ''test-state'')]\<rparr>"

definition callback_params :: "(string \<times> string) list" where
  "callback_params = [(''code'', ''auth-code-123''), (''state'', ''test-state'')]"

definition exchanged_tokens :: AuthTokens where
  "exchanged_tokens =
     \<lparr>access_token = ''access-token-123'', refresh_token = ''refresh-token-456'',
      session_id = Some ''session-789'', organization_id = Value ''org-123''\<rparr>"

definition tokens_b :: AuthTokens where
  "tokens_b =
     \<lparr>access_token = ''token-b'', refresh_token = ''refresh-b'', session_id = Some ''session-b'',
      organization_id = Undefined\<rparr>"

definition tokens_c :: AuthTokens where
  "tokens_c =
     \<lparr>access_token = ''token-c'', refresh_token = ''refresh-c'', session_id = Some ''session-c'',
      organization_id = Undefined\<rparr>"

definition no_options :: RequestInit where
  "no_options = \<lparr>init_method = None, init_headers = None, init_body = None\<rparr>"

definition forged_options :: RequestInit where
  "forged_options =
     \<lparr>init_method = Some ''POST'',
      init_headers = Some [''Authorization'' \<mapsto> ''Bearer forged'', ''X-Request-Id'' \<mapsto> ''42''],
      init_body = Some ''task''\<rparr>"

definition lowercase_options :: RequestInit where
  "lowercase_options =
     \<lparr>init_method = Some ''POST'',
      init_headers = Some [''authorization'' \<mapsto> ''Bearer forged''],
      init_body = Some ''task''\<rparr>"


section \<open>Basic facts\<close>

lemmas key_defs =
  TOKEN_KEYS_ACCESS_TOKEN_def TOKEN_KEYS_REFRESH_TOKEN_def TOKEN_KEYS_SESSION_ID_def
  TOKEN_KEYS_ORGANIZATION_ID_def TOKEN_KEYS_PKCE_PREFIX_def

lemma pkce_key_fresh:
  "TOKEN_KEYS_PKCE_PREFIX @ st \<noteq> TOKEN_KEYS_ACCESS_TOKEN"
  "TOKEN_KEYS_PKCE_PREFIX @ st \<noteq> TOKEN_KEYS_REFRESH_TOKEN"
  "TOKEN_KEYS_PKCE_PREFIX @ st \<noteq> TOKEN_KEYS_SESSION_ID"
  "TOKEN_KEYS_PKCE_PREFIX @ st \<noteq> TOKEN_KEYS_ORGANIZATION_ID"
  by (simp_all add: key_defs)

text \<open>
  The store after \<open>storeTokens\<close>, as one expression; nothing else changes.
\<close>

lemma secrets_storeTokens:
  "secrets (storeTokens t s) =
     (let m1 = (secrets s)(TOKEN_KEYS_ACCESS_TOKEN \<mapsto> access_token t,
                           TOKEN_KEYS_REFRESH_TOKEN \<mapsto> refresh_token t);
          m2 = (if truthy (session_id t) then m1(TOKEN_KEYS_SESSION_ID \<mapsto> the (session_id t))
                else m1)
      in (case organization_id t of
            Value org \<Rightarrow> if org \<noteq> [] then m2(TOKEN_KEYS_ORGANIZATION_ID \<mapsto> org) else m2
          | _ \<Rightarrow> m2))"
  by (simp add: storeTokens_def secrets_store_def truthy_def Let_def
      split: option.splits nullable.splits)

lemma storeTokens_only_secrets:
  "storeTokens t s = s\<lparr>secrets := secrets (storeTokens t s)\<rparr>"
  by (simp add: storeTokens_def secrets_store_def Let_def split: option.splits nullable.splits)

lemma storeTokens_access:
  "secrets (storeTokens t s) TOKEN_KEYS_ACCESS_TOKEN = Some (access_token t)"
  by (simp add: secrets_storeTokens key_defs Let_def split: nullable.splits)

text \<open>
  \<open>signOut\<close> in closed form. The session id is read back after its deletion, so the
  notification finds none: the state changes in the store, the in-memory map and
  the message shown, and in nothing else.
\<close>

lemma signOut_notify_after_delete:
  "secrets s TOKEN_KEYS_SESSION_ID = None \<Longrightarrow> signOut_notify s = (Inr (), s)"
  by (simp add: signOut_notify_def secrets_get_def)

lemma signOut_try_effect:
  "signOut_try s =
     (Inr (), s\<lparr>secrets := (secrets s)(TOKEN_KEYS_ACCESS_TOKEN := None,
                     TOKEN_KEYS_REFRESH_TOKEN := None, TOKEN_KEYS_SESSION_ID := None,
                     TOKEN_KEYS_ORGANIZATION_ID := None),
              pendingAuth := Map.empty,
              shown := shown s @ [InformationMessage AUTH_SUCCESS_SIGNED_OUT]\<rparr>)"
proof -
  let ?s5 = "(secrets_delete TOKEN_KEYS_ORGANIZATION_ID
               (secrets_delete TOKEN_KEYS_SESSION_ID
                 (secrets_delete TOKEN_KEYS_REFRESH_TOKEN
                   (secrets_delete TOKEN_KEYS_ACCESS_TOKEN s))))\<lparr>pendingAuth := Map.empty\<rparr>"
  have gone: "secrets ?s5 TOKEN_KEYS_SESSION_ID = None"
    by (simp add: secrets_delete_def key_defs)
  have "signOut_notify ?s5 = (Inr (), ?s5)"
    using gone by (rule signOut_notify_after_delete)
  then show ?thesis
    by (simp add: signOut_try_def Let_def secrets_delete_def showInformationMessage_def)
qed

lemma signOut_effect:
  "signOut s =
     (Inr (), s\<lparr>secrets := (secrets s)(TOKEN_KEYS_ACCESS_TOKEN := None,
                     TOKEN_KEYS_REFRESH_TOKEN := None, TOKEN_KEYS_SESSION_ID := None,
                     TOKEN_KEYS_ORGANIZATION_ID := None),
              pendingAuth := Map.empty,
              shown := shown s @ [InformationMessage AUTH_SUCCESS_SIGNED_OUT]\<rparr>)"
  by (simp add: signOut_def signOut_try_effect)

text \<open>
  \<open>refreshAccessToken\<close> by the outcome of its request, and \<open>getAccessToken\<close> by the
  content of the store. Neither ever rejects.
\<close>

lemma delivers_no_tokens_iff:
  "delivers_no_tokens script \<longleftrightarrow> (\<nexists>t rest. script = Ok2xx (Some t) # rest)"
  by (auto simp: delivers_no_tokens_def split: list.splits fetch_result.splits option.splits)

lemma refreshAccessToken_success:
  "network s = Ok2xx (Some t) # rest \<Longrightarrow>
   refreshAccessToken r s =
     (Inr (Some (access_token t)),
      storeTokens t (s\<lparr>network := rest, fetched := fetched s @ [refresh_request r s]\<rparr>))"
  by (simp add: refreshAccessToken_def refreshAccessToken_try_def fetch_def)

lemma refreshAccessToken_failure:
  assumes "delivers_no_tokens (network s)"
  shows "\<exists>s'. refreshAccessToken r s = (Inr None, s') \<and>
          secrets s' = (secrets s)(TOKEN_KEYS_ACCESS_TOKEN := None,
            TOKEN_KEYS_REFRESH_TOKEN := None, TOKEN_KEYS_SESSION_ID := None,
            TOKEN_KEYS_ORGANIZATION_ID := None) \<and>
          fetched s' = fetched s @ [refresh_request r s] \<and> network s' = tl (network s)"
proof (cases "network s")
  case Nil
  then show ?thesis
    by (simp add: refreshAccessToken_def refreshAccessToken_try_def fetch_def signOut_effect
        console_error_def)
next
  case (Cons a rest)
  show ?thesis
  proof (cases a)
    case Rejected
    with Cons show ?thesis
      by (simp add: refreshAccessToken_def refreshAccessToken_try_def fetch_def signOut_effect
        console_error_def)
  next
    case (NotOk b)
    with Cons show ?thesis
      by (simp add: refreshAccessToken_def refreshAccessToken_try_def fetch_def signOut_effect
        console_warn_def Let_def)
  next
    case (Ok2xx x)
    with Cons assms have "x = None"
      by (cases x) (simp_all add: delivers_no_tokens_def)
    with Cons Ok2xx show ?thesis
      by (simp add: refreshAccessToken_def refreshAccessToken_try_def fetch_def signOut_effect
        console_error_def)
  qed
qed

lemma refreshAccessToken_fetched:
  "fetched (snd (refreshAccessToken r s)) = fetched s @ [refresh_request r s]"
proof (cases "delivers_no_tokens (network s)")
  case True
  from refreshAccessToken_failure [OF True, of r] show ?thesis by auto
next
  case False
  then obtain t rest where "network s = Ok2xx (Some t) # rest"
    by (auto simp: delivers_no_tokens_iff)
  then show ?thesis
    by (simp add: refreshAccessToken_success storeTokens_def secrets_store_def Let_def
        split: option.splits nullable.splits)
qed

lemma refreshAccessToken_never_throws: "\<exists>r. fst (refreshAccessToken rt s) = Inr r"
proof (cases "delivers_no_tokens (network s)")
  case True
  from refreshAccessToken_failure [OF True, of rt] show ?thesis by auto
next
  case False
  then obtain t rest where "network s = Ok2xx (Some t) # rest"
    by (auto simp: delivers_no_tokens_iff)
  then show ?thesis by (simp add: refreshAccessToken_success)
qed

lemma getAccessToken_never_throws: "\<exists>r. fst (getAccessToken s) = Inr r"
  using refreshAccessToken_never_throws
  by (simp add: getAccessToken_def Let_def split: option.splits)

lemma getAccessToken_miss:
  assumes "\<not> truthy (secrets s TOKEN_KEYS_ACCESS_TOKEN)"
    and "secrets s TOKEN_KEYS_REFRESH_TOKEN = Some r" and "r \<noteq> []"
  shows "getAccessToken s = refreshAccessToken r s"
  using assms by (simp add: getAccessToken_def secrets_get_def)

lemma getAccessToken_stored:
  "secrets s TOKEN_KEYS_ACCESS_TOKEN = Some tok \<Longrightarrow> tok \<noteq> [] \<Longrightarrow>
   getAccessToken s = (Inr (Some tok), s)"
  by (simp add: getAccessToken_def secrets_get_def truthy_def)

lemma getAccessToken_logged_out:
  "secrets s TOKEN_KEYS_ACCESS_TOKEN = None \<Longrightarrow> secrets s TOKEN_KEYS_REFRESH_TOKEN = None \<Longrightarrow>
   getAccessToken s = (Inr None, s)"
  by (simp add: getAccessToken_def secrets_get_def truthy_def)

text \<open>
  Once \<open>getAccessToken\<close> has returned a token, calling it again with nothing in
  between returns the same token without touching anything.
\<close>

lemma getAccessToken_settled:
  assumes "getAccessToken s = (Inr (Some tok), s1)" and "tok \<noteq> []"
  shows "getAccessToken s1 = (Inr (Some tok), s1)"
proof (cases "truthy (secrets s TOKEN_KEYS_ACCESS_TOKEN)")
  case True
  with assms have "s1 = s" "secrets s TOKEN_KEYS_ACCESS_TOKEN = Some tok"
    by (auto simp: getAccessToken_def secrets_get_def Let_def)
  with assms(2) show ?thesis by (simp add: getAccessToken_stored)
next
  case False
  show ?thesis
  proof (cases "truthy (secrets s TOKEN_KEYS_REFRESH_TOKEN)")
    case no_refresh: False
    with False assms show ?thesis
      by (auto simp: getAccessToken_def secrets_get_def Let_def truthy_def split: option.splits)
  next
    case True
    then obtain r where r: "secrets s TOKEN_KEYS_REFRESH_TOKEN = Some r" "r \<noteq> []"
      by (auto simp: truthy_def split: option.splits)
    with False have eq: "getAccessToken s = refreshAccessToken r s"
      by (simp add: getAccessToken_miss)
    show ?thesis
    proof (cases "delivers_no_tokens (network s)")
      case True
      from refreshAccessToken_failure [OF True, of r] eq assms show ?thesis by auto
    next
      case False
      then obtain t rest where "network s = Ok2xx (Some t) # rest"
        by (auto simp: delivers_no_tokens_iff)
      from refreshAccessToken_success [OF this, of r] eq assms
      have "tok = access_token t"
        "s1 = storeTokens t (s\<lparr>network := rest, fetched := fetched s @ [refresh_request r s]\<rparr>)"
        by simp_all
      with assms(2) show ?thesis
        by (simp add: getAccessToken_stored storeTokens_access)
    qed
  qed
qed

text \<open>
  \<open>handleCallback\<close> past its two checks, by the outcome of the exchange.
\<close>

lemma handleCallback_try_exchange:
  assumes "map_of params ''code'' = Some c" and "c \<noteq> []"
    and "map_of params ''state'' = Some st" and "st \<noteq> []"
    and "secrets s (TOKEN_KEYS_PKCE_PREFIX @ st) = Some v" and "v \<noteq> []"
  shows "handleCallback_try params s =
     (case fetch (callback_request c v st s) s of
        (Rejected, s1) \<Rightarrow> (Inl TypeError, s1)
      | (NotOk b, s1) \<Rightarrow>
          (Inl (Error (or_else
             (case b of None \<Rightarrow> Some AUTH_ERRORS_TOKEN_EXCHANGE_FAILED | Some e \<Rightarrow> e)
             AUTH_ERRORS_TOKEN_EXCHANGE_FAILED)), s1)
      | (Ok2xx None, s1) \<Rightarrow> (Inl SyntaxError, s1)
      | (Ok2xx (Some tokens), s1) \<Rightarrow>
          (Inr (), executeCommand ''softcodes.onAuthenticated''
             (showInformationMessage AUTH_SUCCESS_AUTHENTICATED
               ((secrets_delete (TOKEN_KEYS_PKCE_PREFIX @ st) (storeTokens tokens s1))
                  \<lparr>pendingAuth := (pendingAuth s1)(st := None)\<rparr>))))"
proof -
  have pa: "pendingAuth (secrets_delete k (storeTokens t x)) = pendingAuth x" for k t x
    by (subst storeTokens_only_secrets) (simp add: secrets_delete_def)
  show ?thesis
    using assms
    by (simp add: handleCallback_try_def truthy_def secrets_get_def Let_def pa
        split: prod.splits fetch_result.splits option.splits)
qed

lemma handleCallback_success:
  assumes "map_of params ''code'' = Some c" and "c \<noteq> []"
    and "map_of params ''state'' = Some st" and "st \<noteq> []"
    and "secrets s (TOKEN_KEYS_PKCE_PREFIX @ st) = Some v" and "v \<noteq> []"
    and "network s = Ok2xx (Some t) # rest"
  shows "secrets (snd (handleCallback params s)) (TOKEN_KEYS_PKCE_PREFIX @ st) = None"
    and "pendingAuth (snd (handleCallback params s)) st = None"
    and "secrets (snd (handleCallback params s)) TOKEN_KEYS_ACCESS_TOKEN = Some (access_token t)"
    and "fetched (snd (handleCallback params s)) = fetched s @ [callback_request c v st s]"
    and "shown (snd (handleCallback params s)) =
           shown s @ [InformationMessage AUTH_SUCCESS_AUTHENTICATED]"
proof -
  let ?s1 = "s\<lparr>network := rest, fetched := fetched s @ [callback_request c v st s]\<rparr>"
  have h: "handleCallback params s =
     (Inr (), executeCommand ''softcodes.onAuthenticated''
             (showInformationMessage AUTH_SUCCESS_AUTHENTICATED
               ((secrets_delete (TOKEN_KEYS_PKCE_PREFIX @ st) (storeTokens t ?s1))
                  \<lparr>pendingAuth := (pendingAuth ?s1)(st := None)\<rparr>)))"
    using assms(7)
    by (simp add: handleCallback_def handleCallback_try_exchange [OF assms(1-6)] fetch_def)
  have other: "fetched (storeTokens t x) = fetched x" "shown (storeTokens t x) = shown x" for x
    by (subst storeTokens_only_secrets, simp)+
  show "secrets (snd (handleCallback params s)) (TOKEN_KEYS_PKCE_PREFIX @ st) = None"
    by (simp add: h executeCommand_def showInformationMessage_def secrets_delete_def)
  show "pendingAuth (snd (handleCallback params s)) st = None"
    by (simp add: h executeCommand_def showInformationMessage_def secrets_delete_def)
  show "secrets (snd (handleCallback params s)) TOKEN_KEYS_ACCESS_TOKEN = Some (access_token t)"
    using pkce_key_fresh(1) [of st]
    by (simp add: h executeCommand_def showInformationMessage_def secrets_delete_def
        secrets_storeTokens Let_def key_defs split: nullable.splits)
  show "fetched (snd (handleCallback params s)) = fetched s @ [callback_request c v st s]"
    by (simp add: h executeCommand_def showInformationMessage_def secrets_delete_def other)
  show "shown (snd (handleCallback params s)) =
           shown s @ [InformationMessage AUTH_SUCCESS_AUTHENTICATED]"
    by (simp add: h executeCommand_def showInformationMessage_def secrets_delete_def other)
qed

lemma handleCallback_failure:
  assumes "map_of params ''code'' = Some c" and "c \<noteq> []"
    and "map_of params ''state'' = Some st" and "st \<noteq> []"
    and "secrets s (TOKEN_KEYS_PKCE_PREFIX @ st) = Some v" and "v \<noteq> []"
    and "delivers_no_tokens (network s)"
  shows "secrets (snd (handleCallback params s)) = secrets s"
    and "pendingAuth (snd (handleCallback params s)) = pendingAuth s"
    and "fetched (snd (handleCallback params s)) = fetched s @ [callback_request c v st s]"
    and "\<exists>e. shown (snd (handleCallback params s)) =
           shown s @ [ErrorMessage ''Authentication callback failed: '' e]"
  using assms(7)
  by (simp_all add: handleCallback_def handleCallback_try_exchange [OF assms(1-6)] fetch_def
      delivers_no_tokens_def showErrorMessage_def console_error_def
      split: list.splits fetch_result.splits option.splits)

text \<open>
  \<open>validateSession\<close> by what it reads.
\<close>

lemma validateSession_absent:
  assumes "getAccessToken s = (Inr tok, s1)"
    and "\<not> truthy tok \<or> \<not> truthy (secrets s1 TOKEN_KEYS_SESSION_ID)"
  shows "validateSession s = (Inr False, s1)"
  using assms by (auto simp: validateSession_def validateSession_try_def secrets_get_def)

lemma validateSession_present:
  assumes "getAccessToken s = (Inr (Some tok), s1)" and "tok \<noteq> []"
    and "secrets s1 TOKEN_KEYS_SESSION_ID = Some sid" and "sid \<noteq> []"
  shows "fst (validateSession s) =
           Inr (case network s1 of Ok2xx t # rest \<Rightarrow> True | _ \<Rightarrow> False) \<and>
         fetched (snd (validateSession s)) = fetched s1 @ [validate_request tok sid s1]"
  using assms
  by (simp add: validateSession_def validateSession_try_def secrets_get_def truthy_def fetch_def
      console_error_def split: list.splits fetch_result.splits)

text \<open>
  One round of \<open>request\<close>, and the shape of everything it sends.
\<close>

lemma request_401_unchanged:
  assumes "getToken w = (Inr (Some t), w1)" and "t \<noteq> []"
    and "getToken w1 = (Inr nt, w2)" and "\<not> truthy nt \<or> nt = Some t"
  shows "request getToken base ep opts (ApiResponse 401 b # rest) w sent cmds =
     (Inl (Error ''Authentication required''),
      \<lparr>session = w2, api_network = rest,
       api_fetched = sent @ [request_init base ep opts t],
       api_executed = cmds @ [''softcodes.authenticate'']\<rparr>)"
  using assms
  by (subst request.simps) (auto simp: truthy_def Let_def)

lemma request_401_changed:
  assumes "getToken w = (Inr (Some t), w1)" and "t \<noteq> []"
    and "getToken w1 = (Inr nt, w2)" and "truthy nt" and "nt \<noteq> Some t"
  shows "request getToken base ep opts (ApiResponse 401 b # rest) w sent cmds =
     request getToken base ep opts rest w2 (sent @ [request_init base ep opts t]) cmds"
  using assms
  by (subst request.simps) (simp add: truthy_def Let_def)

lemma request_200:
  assumes "getToken w = (Inr (Some t), w1)" and "t \<noteq> []" and "response_ok status"
  shows "request getToken base ep opts (ApiResponse status (Some j) # rest) w sent cmds =
     (Inr j, \<lparr>session = w1, api_network = rest,
              api_fetched = sent @ [request_init base ep opts t], api_executed = cmds\<rparr>)"
  using assms
  by (subst request.simps) (simp add: truthy_def Let_def response_ok_def)

lemma request_fetched_shape:
  "\<exists>toks. api_fetched (snd (request getToken base ep opts script w sent cmds)) =
            sent @ map (request_init base ep opts) toks \<and> (\<forall>t \<in> set toks. t \<noteq> [])"
proof (induction script arbitrary: w sent)
  case Nil
  show ?case
  proof (cases "getToken w")
    case (Pair r w1)
    show ?thesis
    proof (cases r)
      case (Inl e)
      with Pair have "api_fetched (snd (request getToken base ep opts [] w sent cmds)) =
          sent @ map (request_init base ep opts) []"
        by (subst request.simps) simp
      then show ?thesis by (intro exI [of _ "[]"]) simp
    next
      case (Inr tok)
      show ?thesis
      proof (cases "truthy tok")
        case False
        with Pair Inr have "api_fetched (snd (request getToken base ep opts [] w sent cmds)) =
            sent @ map (request_init base ep opts) []"
          by (subst request.simps) simp
        then show ?thesis by (intro exI [of _ "[]"]) simp
      next
        case True
        with Pair Inr have "api_fetched (snd (request getToken base ep opts [] w sent cmds)) =
            sent @ map (request_init base ep opts) [the tok]"
          by (subst request.simps) (simp add: Let_def)
        moreover from True have "the tok \<noteq> []"
          by (auto simp: truthy_def split: option.splits)
        ultimately show ?thesis by (intro exI [of _ "[the tok]"]) simp
      qed
    qed
  qed
next
  case (Cons a rest)
  show ?case
  proof (cases "getToken w")
    case (Pair r w1)
    show ?thesis
    proof (cases r)
      case (Inl e)
      with Pair have "api_fetched (snd (request getToken base ep opts (a # rest) w sent cmds)) =
          sent @ map (request_init base ep opts) []"
        by (subst request.simps) simp
      then show ?thesis by (intro exI [of _ "[]"]) simp
    next
      case (Inr tok)
      show ?thesis
      proof (cases "truthy tok")
        case False
        with Pair Inr
        have "api_fetched (snd (request getToken base ep opts (a # rest) w sent cmds)) =
            sent @ map (request_init base ep opts) []"
          by (subst request.simps) simp
        then show ?thesis by (intro exI [of _ "[]"]) simp
      next
        case True
        then have ne: "the tok \<noteq> []"
          by (auto simp: truthy_def split: option.splits)
        let ?sent1 = "sent @ [request_init base ep opts (the tok)]"
        have retry_or_stop:
          "api_fetched (snd (request getToken base ep opts (a # rest) w sent cmds)) = ?sent1 \<or>
           (\<exists>w2. request getToken base ep opts (a # rest) w sent cmds =
                   request getToken base ep opts rest w2 ?sent1 cmds)"
          using Pair Inr True
          by (subst (1 2) request.simps)
             (auto simp: Let_def split: api_fetch_result.splits prod.splits sum.splits
                option.splits)
        then show ?thesis
        proof
          assume "api_fetched (snd (request getToken base ep opts (a # rest) w sent cmds)) = ?sent1"
          with ne show ?thesis by (intro exI [of _ "[the tok]"]) simp
        next
          assume "\<exists>w2. request getToken base ep opts (a # rest) w sent cmds =
                   request getToken base ep opts rest w2 ?sent1 cmds"
          then obtain w2 where eq: "request getToken base ep opts (a # rest) w sent cmds =
                   request getToken base ep opts rest w2 ?sent1 cmds"
            by blast
          from Cons.IH [of w2 ?sent1] obtain toks where
            "api_fetched (snd (request getToken base ep opts rest w2 ?sent1 cmds)) =
               ?sent1 @ map (request_init base ep opts) toks" "\<forall>t \<in> set toks. t \<noteq> []"
            by blast
          with eq ne show ?thesis by (intro exI [of _ "the tok # toks"]) simp
        qed
      qed
    qed
  qed
qed

lemma request_first_fetch:
  assumes "getToken w = (Inr (Some tok), w1)" and "tok \<noteq> []"
  shows "\<exists>more. api_fetched (snd (request getToken base ep opts script w sent cmds)) =
           sent @ request_init base ep opts tok # more"
proof -
  let ?sent1 = "sent @ [request_init base ep opts tok]"
  have "api_fetched (snd (request getToken base ep opts script w sent cmds)) = ?sent1 \<or>
        (\<exists>w2 rest. request getToken base ep opts script w sent cmds =
                   request getToken base ep opts rest w2 ?sent1 cmds)"
    using assms
    by (subst (1 2) request.simps)
       (auto simp: Let_def truthy_def split: list.splits api_fetch_result.splits prod.splits
          sum.splits option.splits)
  then show ?thesis
  proof
    assume "api_fetched (snd (request getToken base ep opts script w sent cmds)) = ?sent1"
    then show ?thesis by simp
  next
    assume "\<exists>w2 rest. request getToken base ep opts script w sent cmds =
                   request getToken base ep opts rest w2 ?sent1 cmds"
    then obtain w2 rest where eq: "request getToken base ep opts script w sent cmds =
                   request getToken base ep opts rest w2 ?sent1 cmds"
      by blast
    from request_fetched_shape [of getToken base ep opts rest w2 ?sent1 cmds] obtain toks where
      "api_fetched (snd (request getToken base ep opts rest w2 ?sent1 cmds)) =
         ?sent1 @ map (request_init base ep opts) toks"
      by blast
    with eq show ?thesis by simp
  qed
qed

lemma request_init_authorization:
  "headers (request_init base ep opts tok) ''Authorization'' = Some (''Bearer '' @ tok)"
  "headers (request_init base ep opts tok) ''Content-Type'' = Some ''application/json''"
  by (simp_all add: request_init_def)

text \<open>
  Header names that \<^verbatim>\<open>fetch\<close> takes for \<^verbatim>\<open>Authorization\<close>, and what \<open>request_init\<close>
  leaves under them.
\<close>

lemma same_name_lowercase: "same_header_name ''authorization'' ''Authorization''"
  by (simp add: same_header_name_def ascii_lowercase_def)

lemma content_type_other_name: "\<not> same_header_name ''Content-Type'' ''Authorization''"
  by (simp add: same_header_name_def ascii_lowercase_def)

lemma request_id_other_name: "\<not> same_header_name ''X-Request-Id'' ''Authorization''"
  by (simp add: same_header_name_def ascii_lowercase_def)

lemma request_init_headers:
  "headers (request_init base ep opts tok) =
     (caller_headers opts)(''Authorization'' \<mapsto> ''Bearer '' @ tok,
                           ''Content-Type'' \<mapsto> ''application/json'')"
  by (simp add: request_init_def caller_headers_def)

lemma request_init_variant_kept:
  assumes "k \<noteq> ''Authorization''" and "same_header_name k ''Authorization''"
  shows "headers (request_init base ep opts tok) k = caller_headers opts k"
proof -
  from assms(2) content_type_other_name have "k \<noteq> ''Content-Type''"
    by auto
  with assms(1) show ?thesis
    by (simp add: request_init_headers)
qed

lemma request_init_only_value:
  assumes none: "\<forall>k. k \<noteq> ''Authorization'' \<and> same_header_name k ''Authorization'' \<longrightarrow>
        caller_headers opts k = None"
    and name: "same_header_name k ''Authorization''"
    and carried: "headers (request_init base ep opts tok) k = Some v"
  shows "v = ''Bearer '' @ tok"
proof (cases "k = ''Authorization''")
  case True
  with carried show ?thesis by (simp add: request_init_authorization(1))
next
  case False
  from False name have "headers (request_init base ep opts tok) k = caller_headers opts k"
    by (rule request_init_variant_kept)
  moreover from none False name have "caller_headers opts k = None"
    by blast
  ultimately show ?thesis using carried by simp
qed

lemma request_every_sent:
  assumes "r \<in> set (api_fetched (snd (request getToken base ep opts script w [] cmds)))"
  shows "\<exists>tok. tok \<noteq> [] \<and> r = request_init base ep opts tok"
proof -
  from request_fetched_shape [of getToken base ep opts script w "[]" cmds] obtain toks where
    sent: "api_fetched (snd (request getToken base ep opts script w [] cmds)) =
       map (request_init base ep opts) toks" and ne: "\<forall>t \<in> set toks. t \<noteq> []"
    by auto
  from assms sent obtain tok where "tok \<in> set toks" "r = request_init base ep opts tok"
    by auto
  with ne show ?thesis by blast
qed

lemma forged_options_no_variant:
  assumes "k \<noteq> ''Authorization''" and "same_header_name k ''Authorization''"
  shows "caller_headers forged_options k = None"
proof -
  from assms(2) request_id_other_name have "k \<noteq> ''X-Request-Id''"
    by auto
  with assms(1) show ?thesis
    by (simp add: caller_headers_def forged_options_def)
qed

text \<open>
  Facts of the scenarios.
\<close>

lemma callback_params_code: "map_of callback_params ''code'' = Some ''auth-code-123''"
  by (simp add: callback_params_def)

lemma callback_params_state: "map_of callback_params ''state'' = Some ''test-state''"
  by (simp add: callback_params_def)

lemma pending_state_verifier:
  "secrets (pending_state\<lparr>network := n\<rparr>) (TOKEN_KEYS_PKCE_PREFIX @ ''test-state'') =
     Some ''test-verifier''"
  by (simp add: pending_state_def fresh_state_def)

lemma pending_state_entry:
  "pendingAuth (pending_state\<lparr>network := n\<rparr>) ''test-state'' =
     Some (''test-verifier'', ''test-state'')"
  by (simp add: pending_state_def fresh_state_def)

lemma signed_in_access:
  "secrets signed_in_state TOKEN_KEYS_ACCESS_TOKEN = Some ''access-token-123''"
  by (simp add: signed_in_state_def fresh_state_def key_defs)

lemma interleaved_quiet:
  assumes "secrets s TOKEN_KEYS_ACCESS_TOKEN = Some tok" and "tok \<noteq> []"
  shows "getAccessToken_interleaved (None # events, s) = (Inr (Some tok), (events, s))"
    and "getAccessToken_interleaved ([], s) = (Inr (Some tok), ([], s))"
  using assms by (simp_all add: getAccessToken_interleaved_def getAccessToken_stored)

lemma interleaved_stored:
  assumes "access_token t \<noteq> []"
  shows "getAccessToken_interleaved (Some t # events, s) =
           (Inr (Some (access_token t)), (events, storeTokens t s))"
proof -
  have "secrets (storeTokens t s) TOKEN_KEYS_ACCESS_TOKEN = Some (access_token t)"
    by (simp add: secrets_storeTokens key_defs Let_def split: nullable.splits)
  from getAccessToken_stored [OF this assms] show ?thesis
    by (simp add: getAccessToken_interleaved_def)
qed

section \<open>Credential persistence\<close>

text \<open>
  C7. \<open>storeTokens\<close> writes the access token and the refresh token whatever the
  payload holds; it writes the session id and the organization id only when the
  payload carries one (a non-empty string), and leaves the stored value as it was
  otherwise. In particular a payload with no \<^verbatim>\<open>organization_id\<close> leaves a stored
  organization id unchanged, and one with no \<^verbatim>\<open>session_id\<close> a stored session id.
\<close>

theorem storeTokens_conditional_writes:
  "secrets (storeTokens t s) TOKEN_KEYS_ACCESS_TOKEN = Some (access_token t) \<and>
   secrets (storeTokens t s) TOKEN_KEYS_REFRESH_TOKEN = Some (refresh_token t) \<and>
   secrets (storeTokens t s) TOKEN_KEYS_SESSION_ID =
     (if truthy (session_id t) then session_id t else secrets s TOKEN_KEYS_SESSION_ID) \<and>
   secrets (storeTokens t s) TOKEN_KEYS_ORGANIZATION_ID =
     (case organization_id t of
        Value org \<Rightarrow> if org \<noteq> [] then Some org else secrets s TOKEN_KEYS_ORGANIZATION_ID
      | Null \<Rightarrow> secrets s TOKEN_KEYS_ORGANIZATION_ID
      | Undefined \<Rightarrow> secrets s TOKEN_KEYS_ORGANIZATION_ID) \<and>
   (organization_id t = Undefined \<longrightarrow>
      secrets (storeTokens t s) TOKEN_KEYS_ORGANIZATION_ID = secrets s TOKEN_KEYS_ORGANIZATION_ID) \<and>
   (session_id t = None \<longrightarrow>
      secrets (storeTokens t s) TOKEN_KEYS_SESSION_ID = secrets s TOKEN_KEYS_SESSION_ID)"
  by (simp add: secrets_storeTokens key_defs truthy_def Let_def
      split: option.splits nullable.splits)

text \<open>
  A refresh response without \<^verbatim>\<open>organization_id\<close>, stored over a signed-in state:
  the organization id of before is still there.
\<close>

theorem storeTokens_conditional_writes_witness:
  "organization_id refreshed_tokens = Undefined \<and>
   secrets signed_in_state TOKEN_KEYS_ORGANIZATION_ID = Some ''org-123'' \<and>
   secrets (storeTokens refreshed_tokens signed_in_state) TOKEN_KEYS_ORGANIZATION_ID =
     Some ''org-123'' \<and>
   secrets (storeTokens refreshed_tokens signed_in_state) TOKEN_KEYS_ACCESS_TOKEN =
     Some ''new-access-token'' \<and>
   secrets (storeTokens refreshed_tokens signed_in_state) TOKEN_KEYS_REFRESH_TOKEN =
     Some ''new-refresh-token'' \<and>
   secrets (storeTokens refreshed_tokens signed_in_state) TOKEN_KEYS_SESSION_ID =
     Some ''new-session''"
proof -
  have undef: "organization_id refreshed_tokens = Undefined"
    by (simp add: refreshed_tokens_def)
  have before: "secrets signed_in_state TOKEN_KEYS_ORGANIZATION_ID = Some ''org-123''"
    by (simp add: signed_in_state_def fresh_state_def key_defs)
  note w = storeTokens_conditional_writes [of refreshed_tokens signed_in_state]
  from w undef before
  have "secrets (storeTokens refreshed_tokens signed_in_state) TOKEN_KEYS_ORGANIZATION_ID =
          Some ''org-123''"
    by simp
  moreover from w
  have "secrets (storeTokens refreshed_tokens signed_in_state) TOKEN_KEYS_ACCESS_TOKEN =
          Some ''new-access-token''"
       "secrets (storeTokens refreshed_tokens signed_in_state) TOKEN_KEYS_REFRESH_TOKEN =
          Some ''new-refresh-token''"
       "secrets (storeTokens refreshed_tokens signed_in_state) TOKEN_KEYS_SESSION_ID =
          Some ''new-session''"
    by (simp_all add: refreshed_tokens_def truthy_def)
  ultimately show ?thesis using undef before by simp
qed

text \<open>
  C10. A payload whose \<^verbatim>\<open>organization_id\<close> is \<^verbatim>\<open>null\<close> (a personal account) is
  stored exactly as one without the field: the stored organization id stays what
  it was. No payload ever removes a stored organization id; \<open>signOut\<close> does.
\<close>

theorem storeTokens_null_organization_kept:
  "(organization_id t = Null \<longrightarrow>
      secrets (storeTokens t s) TOKEN_KEYS_ORGANIZATION_ID = secrets s TOKEN_KEYS_ORGANIZATION_ID) \<and>
   storeTokens (t\<lparr>organization_id := Null\<rparr>) s =
     storeTokens (t\<lparr>organization_id := Undefined\<rparr>) s \<and>
   (secrets s TOKEN_KEYS_ORGANIZATION_ID \<noteq> None \<longrightarrow>
      secrets (storeTokens t s) TOKEN_KEYS_ORGANIZATION_ID \<noteq> None) \<and>
   secrets (snd (signOut (storeTokens t s))) TOKEN_KEYS_ORGANIZATION_ID = None"
proof -
  have same: "storeTokens (t\<lparr>organization_id := Null\<rparr>) s =
      storeTokens (t\<lparr>organization_id := Undefined\<rparr>) s"
    by (simp add: storeTokens_def)
  have kept: "organization_id t = Null \<longrightarrow>
      secrets (storeTokens t s) TOKEN_KEYS_ORGANIZATION_ID = secrets s TOKEN_KEYS_ORGANIZATION_ID"
    by (simp add: secrets_storeTokens key_defs Let_def)
  have never_cleared: "secrets s TOKEN_KEYS_ORGANIZATION_ID \<noteq> None \<longrightarrow>
      secrets (storeTokens t s) TOKEN_KEYS_ORGANIZATION_ID \<noteq> None"
    by (simp add: secrets_storeTokens key_defs Let_def split: nullable.splits)
  have deleted: "secrets (snd (signOut (storeTokens t s))) TOKEN_KEYS_ORGANIZATION_ID = None"
    by (simp add: signOut_effect)
  from kept same never_cleared deleted show ?thesis by blast
qed

theorem storeTokens_null_organization_kept_witness:
  "organization_id personal_tokens = Null \<and>
   secrets signed_in_state TOKEN_KEYS_ORGANIZATION_ID = Some ''org-123'' \<and>
   secrets (storeTokens personal_tokens signed_in_state) TOKEN_KEYS_ORGANIZATION_ID =
     Some ''org-123'' \<and>
   secrets (snd (signOut (storeTokens personal_tokens signed_in_state)))
     TOKEN_KEYS_ORGANIZATION_ID = None"
proof -
  have null: "organization_id personal_tokens = Null"
    by (simp add: personal_tokens_def)
  have before: "secrets signed_in_state TOKEN_KEYS_ORGANIZATION_ID = Some ''org-123''"
    by (simp add: signed_in_state_def fresh_state_def key_defs)
  from storeTokens_null_organization_kept [of personal_tokens signed_in_state] null before
  show ?thesis by simp
qed

section \<open>Token retrieval\<close>

text \<open>
  C5. With no usable access token in the store and a refresh token \<open>r\<close> in it,
  \<open>getAccessToken\<close> issues exactly one request: a POST to the refresh endpoint whose
  body is \<^verbatim>\<open>{refresh_token: r, client_type: "vscode"}\<close>. When the answer is 2xx and
  carries credentials, these are stored as \<open>storeTokens\<close> stores them and the new
  access token is returned.
\<close>

theorem getAccessToken_refresh_on_miss:
  assumes "\<not> truthy (secrets s TOKEN_KEYS_ACCESS_TOKEN)"
    and "secrets s TOKEN_KEYS_REFRESH_TOKEN = Some r" and "r \<noteq> []"
  shows "fetched (snd (getAccessToken s)) =
           fetched s @
             [\<lparr>url = getBackendUrl s @ AUTH_ENDPOINTS_REFRESH_TOKEN,
               http_method = Some ''POST'',
               headers = json_headers s,
               body = Some (JsonObject [(''refresh_token'', r), (''client_type'', ''vscode'')])\<rparr>] \<and>
         (\<forall>t rest. network s = Ok2xx (Some t) # rest \<longrightarrow>
            fst (getAccessToken s) = Inr (Some (access_token t)) \<and>
            secrets (snd (getAccessToken s)) = secrets (storeTokens t s) \<and>
            secrets (snd (getAccessToken s)) TOKEN_KEYS_ACCESS_TOKEN = Some (access_token t) \<and>
            secrets (snd (getAccessToken s)) TOKEN_KEYS_REFRESH_TOKEN = Some (refresh_token t))"
proof -
  have eq: "getAccessToken s = refreshAccessToken r s"
    using assms by (rule getAccessToken_miss)
  have one_call: "fetched (snd (getAccessToken s)) =
           fetched s @
             [\<lparr>url = getBackendUrl s @ AUTH_ENDPOINTS_REFRESH_TOKEN,
               http_method = Some ''POST'',
               headers = json_headers s,
               body = Some (JsonObject [(''refresh_token'', r), (''client_type'', ''vscode'')])\<rparr>]"
    by (simp add: eq refreshAccessToken_fetched refresh_request_def)
  have stored: "fst (getAccessToken s) = Inr (Some (access_token t)) \<and>
            secrets (snd (getAccessToken s)) = secrets (storeTokens t s) \<and>
            secrets (snd (getAccessToken s)) TOKEN_KEYS_ACCESS_TOKEN = Some (access_token t) \<and>
            secrets (snd (getAccessToken s)) TOKEN_KEYS_REFRESH_TOKEN = Some (refresh_token t)"
    if "network s = Ok2xx (Some t) # rest" for t rest
    using that
    by (simp add: eq refreshAccessToken_success secrets_storeTokens key_defs Let_def
        split: nullable.splits)
  from one_call stored show ?thesis
    by blast
qed

text \<open>
  The test "should refresh token if access token is missing".
\<close>

theorem getAccessToken_refresh_on_miss_witness:
  "\<not> truthy (secrets (expired_state\<lparr>network := [Ok2xx (Some refreshed_tokens)]\<rparr>) TOKEN_KEYS_ACCESS_TOKEN) \<and>
   secrets (expired_state\<lparr>network := [Ok2xx (Some refreshed_tokens)]\<rparr>) TOKEN_KEYS_REFRESH_TOKEN =
     Some ''refresh-token-123'' \<and>
   fst (getAccessToken (expired_state\<lparr>network := [Ok2xx (Some refreshed_tokens)]\<rparr>)) =
     Inr (Some ''new-access-token'') \<and>
   secrets (snd (getAccessToken (expired_state\<lparr>network := [Ok2xx (Some refreshed_tokens)]\<rparr>)))
     TOKEN_KEYS_ACCESS_TOKEN = Some ''new-access-token'' \<and>
   map body (fetched (snd (getAccessToken (expired_state\<lparr>network := [Ok2xx (Some refreshed_tokens)]\<rparr>)))) =
     [Some (JsonObject [(''refresh_token'', ''refresh-token-123''), (''client_type'', ''vscode'')])]"
proof -
  let ?s = "expired_state\<lparr>network := [Ok2xx (Some refreshed_tokens)]\<rparr>"
  have miss: "\<not> truthy (secrets ?s TOKEN_KEYS_ACCESS_TOKEN)"
    by (simp add: expired_state_def fresh_state_def key_defs truthy_def)
  have held: "secrets ?s TOKEN_KEYS_REFRESH_TOKEN = Some ''refresh-token-123''"
    by (simp add: expired_state_def fresh_state_def key_defs)
  have net: "network ?s = Ok2xx (Some refreshed_tokens) # []"
    by simp
  have none_before: "fetched ?s = []"
    by (simp add: expired_state_def fresh_state_def)
  have nonempty: "''refresh-token-123'' \<noteq> []"
    by simp
  note w = getAccessToken_refresh_on_miss [OF miss held nonempty]
  from w net have result: "fst (getAccessToken ?s) = Inr (Some (access_token refreshed_tokens))"
    and stored: "secrets (snd (getAccessToken ?s)) TOKEN_KEYS_ACCESS_TOKEN =
                   Some (access_token refreshed_tokens)"
    by blast+
  from w none_before have "map body (fetched (snd (getAccessToken ?s))) =
     [Some (JsonObject [(''refresh_token'', ''refresh-token-123''), (''client_type'', ''vscode'')])]"
    by simp
  with result stored miss held show ?thesis
    by (simp add: refreshed_tokens_def)
qed

text \<open>
  C6. When the refresh delivers no credentials (the request is rejected, the
  response is not 2xx, or its body does not parse), \<open>refreshAccessToken\<close> returns no
  token and leaves none of the four credential keys in the store; \<open>getAccessToken\<close>,
  which calls it when the access token is missing and a refresh token is stored,
  returns no token either.
\<close>

theorem refresh_failure_purges:
  assumes "delivers_no_tokens (network s)"
  shows "fst (refreshAccessToken r s) = Inr None \<and>
         secrets (snd (refreshAccessToken r s)) TOKEN_KEYS_ACCESS_TOKEN = None \<and>
         secrets (snd (refreshAccessToken r s)) TOKEN_KEYS_REFRESH_TOKEN = None \<and>
         secrets (snd (refreshAccessToken r s)) TOKEN_KEYS_SESSION_ID = None \<and>
         secrets (snd (refreshAccessToken r s)) TOKEN_KEYS_ORGANIZATION_ID = None \<and>
         (\<not> truthy (secrets s TOKEN_KEYS_ACCESS_TOKEN) \<and>
          secrets s TOKEN_KEYS_REFRESH_TOKEN = Some r \<and> r \<noteq> [] \<longrightarrow>
            getAccessToken s = refreshAccessToken r s \<and> fst (getAccessToken s) = Inr None)"
proof -
  from refreshAccessToken_failure [OF assms, of r]
  obtain s' where r: "refreshAccessToken r s = (Inr None, s')"
    and s': "secrets s' = (secrets s)(TOKEN_KEYS_ACCESS_TOKEN := None,
            TOKEN_KEYS_REFRESH_TOKEN := None, TOKEN_KEYS_SESSION_ID := None,
            TOKEN_KEYS_ORGANIZATION_ID := None)"
    by blast
  have "getAccessToken s = refreshAccessToken r s"
    if "\<not> truthy (secrets s TOKEN_KEYS_ACCESS_TOKEN)"
      "secrets s TOKEN_KEYS_REFRESH_TOKEN = Some r" "r \<noteq> []"
    using that by (rule getAccessToken_miss)
  with r s' show ?thesis by (simp add: key_defs)
qed

theorem refresh_failure_purges_witness:
  "delivers_no_tokens (network (expired_state\<lparr>network := [NotOk (Some (Some ''Token refresh failed''))]\<rparr>)) \<and>
   secrets (expired_state\<lparr>network := [NotOk (Some (Some ''Token refresh failed''))]\<rparr>)
     TOKEN_KEYS_REFRESH_TOKEN = Some ''refresh-token-123'' \<and>
   fst (getAccessToken (expired_state\<lparr>network := [NotOk (Some (Some ''Token refresh failed''))]\<rparr>)) =
     Inr None \<and>
   map (secrets (snd (getAccessToken
          (expired_state\<lparr>network := [NotOk (Some (Some ''Token refresh failed''))]\<rparr>))))
     [TOKEN_KEYS_ACCESS_TOKEN, TOKEN_KEYS_REFRESH_TOKEN, TOKEN_KEYS_SESSION_ID,
      TOKEN_KEYS_ORGANIZATION_ID] = [None, None, None, None]"
proof -
  let ?s = "expired_state\<lparr>network := [NotOk (Some (Some ''Token refresh failed''))]\<rparr>"
  have fails: "delivers_no_tokens (network ?s)"
    by (simp add: delivers_no_tokens_def)
  have miss: "\<not> truthy (secrets ?s TOKEN_KEYS_ACCESS_TOKEN)"
    by (simp add: expired_state_def fresh_state_def key_defs truthy_def)
  have held: "secrets ?s TOKEN_KEYS_REFRESH_TOKEN = Some ''refresh-token-123''"
    by (simp add: expired_state_def fresh_state_def key_defs)
  from refresh_failure_purges [OF fails, of "''refresh-token-123''"] miss held fails
  show ?thesis by simp
qed

section \<open>Sign-out\<close>

text \<open>
  C2. \<open>signOut\<close> on a signed-in state, with the backend ready to answer: the
  session id is stored before the call, yet no request is issued and the scripted
  answer stays unread. Lines 287-292 delete the session id, line 300 reads it back,
  so the test of line 302 never holds. The local part is as stated: the credential
  keys are gone afterwards.
\<close>

theorem signOut_never_notifies_backend:
  "secrets (signed_in_state\<lparr>network := [Ok2xx None]\<rparr>) TOKEN_KEYS_SESSION_ID = Some ''session-789'' \<and>
   fetched (signed_in_state\<lparr>network := [Ok2xx None]\<rparr>) = [] \<and>
   fetched (snd (signOut (signed_in_state\<lparr>network := [Ok2xx None]\<rparr>))) = [] \<and>
   network (snd (signOut (signed_in_state\<lparr>network := [Ok2xx None]\<rparr>))) = [Ok2xx None] \<and>
   secrets (snd (signOut (signed_in_state\<lparr>network := [Ok2xx None]\<rparr>))) TOKEN_KEYS_SESSION_ID = None"
  by (simp add: signOut_effect signed_in_state_def fresh_state_def key_defs)

section \<open>Session validation\<close>

text \<open>
  C9. \<open>validateSession\<close> never rejects. With the token that \<open>getAccessToken\<close>
  returns or the session id then stored missing, it returns false and sends
  nothing. With both present it sends one POST to the validate-session endpoint,
  with the bearer header and the body \<^verbatim>\<open>{session_id, client_type: "vscode"}\<close>, and
  returns true exactly when the answer is 2xx: a rejected request or a non-2xx
  answer gives false.
\<close>

theorem validateSession_fail_closed:
  "(\<exists>b. fst (validateSession s) = Inr b) \<and>
   (\<forall>tok s1. getAccessToken s = (Inr tok, s1) \<longrightarrow>
      (\<not> truthy tok \<or> \<not> truthy (secrets s1 TOKEN_KEYS_SESSION_ID) \<longrightarrow>
         validateSession s = (Inr False, s1)) \<and>
      (truthy tok \<and> truthy (secrets s1 TOKEN_KEYS_SESSION_ID) \<longrightarrow>
         fst (validateSession s) =
           Inr (case network s1 of Ok2xx t # rest \<Rightarrow> True | _ \<Rightarrow> False) \<and>
         fetched (snd (validateSession s)) =
           fetched s1 @
             [\<lparr>url = getBackendUrl s1 @ AUTH_ENDPOINTS_VALIDATE_SESSION,
               http_method = Some ''POST'',
               headers = (json_headers s1)(''Authorization'' \<mapsto> ''Bearer '' @ the tok),
               body = Some (JsonObject
                 [(''session_id'', the (secrets s1 TOKEN_KEYS_SESSION_ID)),
                  (''client_type'', ''vscode'')])\<rparr>]))"
proof -
  obtain r s1 where g: "getAccessToken s = (Inr r, s1)"
    using getAccessToken_never_throws [of s] by (cases "getAccessToken s") auto
  have total: "\<exists>b. fst (validateSession s) = Inr b"
  proof (cases "truthy r \<and> truthy (secrets s1 TOKEN_KEYS_SESSION_ID)")
    case True
    then obtain tok sid where "r = Some tok" "tok \<noteq> []"
      "secrets s1 TOKEN_KEYS_SESSION_ID = Some sid" "sid \<noteq> []"
      by (auto simp: truthy_def split: option.splits)
    with g validateSession_present [of s tok s1 sid] show ?thesis by simp
  next
    case False
    with g validateSession_absent [of s r s1] show ?thesis by auto
  qed
  have absent: "validateSession s = (Inr False, s1')"
    if "getAccessToken s = (Inr tok, s1')"
      "\<not> truthy tok \<or> \<not> truthy (secrets s1' TOKEN_KEYS_SESSION_ID)" for tok s1'
    using that by (rule validateSession_absent)
  have present: "fst (validateSession s) =
           Inr (case network s1' of Ok2xx t # rest \<Rightarrow> True | _ \<Rightarrow> False) \<and>
         fetched (snd (validateSession s)) =
           fetched s1' @
             [\<lparr>url = getBackendUrl s1' @ AUTH_ENDPOINTS_VALIDATE_SESSION,
               http_method = Some ''POST'',
               headers = (json_headers s1')(''Authorization'' \<mapsto> ''Bearer '' @ the tok),
               body = Some (JsonObject
                 [(''session_id'', the (secrets s1' TOKEN_KEYS_SESSION_ID)),
                  (''client_type'', ''vscode'')])\<rparr>]"
    if "getAccessToken s = (Inr tok, s1')"
      "truthy tok \<and> truthy (secrets s1' TOKEN_KEYS_SESSION_ID)" for tok s1'
  proof -
    from that(2) obtain tk sid where "tok = Some tk" "tk \<noteq> []"
      "secrets s1' TOKEN_KEYS_SESSION_ID = Some sid" "sid \<noteq> []"
      by (auto simp: truthy_def split: option.splits)
    with that(1) validateSession_present [of s tk s1' sid] show ?thesis
      by (simp add: validate_request_def)
  qed
  from total absent present show ?thesis by blast
qed

theorem validateSession_fail_closed_witness:
  "fst (validateSession (signed_in_state\<lparr>network := [Ok2xx None]\<rparr>)) = Inr True \<and>
   fst (validateSession (signed_in_state\<lparr>network := [NotOk None]\<rparr>)) = Inr False \<and>
   fst (validateSession (signed_in_state\<lparr>network := [Rejected]\<rparr>)) = Inr False \<and>
   validateSession fresh_state = (Inr False, fresh_state)"
proof -
  have tok: "getAccessToken (signed_in_state\<lparr>network := n\<rparr>) =
      (Inr (Some ''access-token-123''), signed_in_state\<lparr>network := n\<rparr>)" for n
    by (rule getAccessToken_stored) (simp_all add: signed_in_state_def fresh_state_def key_defs)
  have sid: "truthy (Some ''access-token-123'') \<and>
      truthy (secrets (signed_in_state\<lparr>network := n\<rparr>) TOKEN_KEYS_SESSION_ID)" for n
    by (simp add: signed_in_state_def fresh_state_def key_defs truthy_def)
  have out: "getAccessToken fresh_state = (Inr None, fresh_state)"
    by (rule getAccessToken_logged_out) (simp_all add: fresh_state_def)
  from validateSession_fail_closed [of "signed_in_state\<lparr>network := [Ok2xx None]\<rparr>"] tok sid
  have a: "fst (validateSession (signed_in_state\<lparr>network := [Ok2xx None]\<rparr>)) = Inr True"
    by simp
  from validateSession_fail_closed [of "signed_in_state\<lparr>network := [NotOk None]\<rparr>"] tok sid
  have b: "fst (validateSession (signed_in_state\<lparr>network := [NotOk None]\<rparr>)) = Inr False"
    by simp
  from validateSession_fail_closed [of "signed_in_state\<lparr>network := [Rejected]\<rparr>"] tok sid
  have c: "fst (validateSession (signed_in_state\<lparr>network := [Rejected]\<rparr>)) = Inr False"
    by simp
  from validateSession_fail_closed [of fresh_state] out
  have d: "validateSession fresh_state = (Inr False, fresh_state)"
    by (simp add: truthy_def)
  from a b c d show ?thesis by simp
qed

section \<open>The callback\<close>

text \<open>
  C1, as the code has it. For a callback with a code and a state whose verifier is
  found in the store, \<open>handleCallback\<close> sends the exchange request. When the exchange
  delivers credentials, the pending entry is deleted from the store and from the
  in-memory map. When it does not (rejected request, non-2xx answer, unparsable
  body), the store and the in-memory map are left exactly as they were, the
  pending entry included.
\<close>

theorem handleCallback_pending_entry:
  assumes "map_of params ''code'' = Some c" and "c \<noteq> []"
    and "map_of params ''state'' = Some st" and "st \<noteq> []"
    and "secrets s (TOKEN_KEYS_PKCE_PREFIX @ st) = Some v" and "v \<noteq> []"
  shows "fetched (snd (handleCallback params s)) = fetched s @ [callback_request c v st s] \<and>
         (if delivers_no_tokens (network s)
          then secrets (snd (handleCallback params s)) = secrets s \<and>
               pendingAuth (snd (handleCallback params s)) = pendingAuth s
          else secrets (snd (handleCallback params s)) (TOKEN_KEYS_PKCE_PREFIX @ st) = None \<and>
               pendingAuth (snd (handleCallback params s)) st = None)"
proof (cases "delivers_no_tokens (network s)")
  case True
  with handleCallback_failure [OF assms True] show ?thesis by simp
next
  case False
  then obtain t rest where "network s = Ok2xx (Some t) # rest"
    by (auto simp: delivers_no_tokens_iff)
  from handleCallback_success [OF assms this] False show ?thesis by simp
qed

theorem handleCallback_pending_entry_witness:
  "secrets (pending_state\<lparr>network := [Ok2xx (Some exchanged_tokens)]\<rparr>)
     (TOKEN_KEYS_PKCE_PREFIX @ ''test-state'') = Some ''test-verifier'' \<and>
   secrets (snd (handleCallback callback_params
       (pending_state\<lparr>network := [Ok2xx (Some exchanged_tokens)]\<rparr>)))
     (TOKEN_KEYS_PKCE_PREFIX @ ''test-state'') = None \<and>
   pendingAuth (snd (handleCallback callback_params
       (pending_state\<lparr>network := [Ok2xx (Some exchanged_tokens)]\<rparr>))) ''test-state'' = None \<and>
   secrets (snd (handleCallback callback_params (pending_state\<lparr>network := [Rejected]\<rparr>)))
     (TOKEN_KEYS_PKCE_PREFIX @ ''test-state'') = Some ''test-verifier'' \<and>
   pendingAuth (snd (handleCallback callback_params (pending_state\<lparr>network := [Rejected]\<rparr>)))
     ''test-state'' = Some (''test-verifier'', ''test-state'')"
proof -
  have ne: "''auth-code-123'' \<noteq> []" "''test-state'' \<noteq> []" "''test-verifier'' \<noteq> []"
    by simp_all
  note ok = handleCallback_pending_entry [OF callback_params_code ne(1) callback_params_state
      ne(2) pending_state_verifier [of "[Ok2xx (Some exchanged_tokens)]"] ne(3)]
  note ko = handleCallback_pending_entry [OF callback_params_code ne(1) callback_params_state
      ne(2) pending_state_verifier [of "[Rejected]"] ne(3)]
  have delivered: "\<not> delivers_no_tokens
      (network (pending_state\<lparr>network := [Ok2xx (Some exchanged_tokens)]\<rparr>))"
    by (simp add: delivers_no_tokens_def)
  have failed: "delivers_no_tokens (network (pending_state\<lparr>network := [Rejected]\<rparr>))"
    by (simp add: delivers_no_tokens_def)
  from ok delivered
  have a: "secrets (snd (handleCallback callback_params
       (pending_state\<lparr>network := [Ok2xx (Some exchanged_tokens)]\<rparr>)))
     (TOKEN_KEYS_PKCE_PREFIX @ ''test-state'') = None \<and>
   pendingAuth (snd (handleCallback callback_params
       (pending_state\<lparr>network := [Ok2xx (Some exchanged_tokens)]\<rparr>))) ''test-state'' = None"
    by simp
  from ko failed
  have b: "secrets (snd (handleCallback callback_params (pending_state\<lparr>network := [Rejected]\<rparr>)))
      = secrets (pending_state\<lparr>network := [Rejected]\<rparr>) \<and>
   pendingAuth (snd (handleCallback callback_params (pending_state\<lparr>network := [Rejected]\<rparr>)))
      = pendingAuth (pending_state\<lparr>network := [Rejected]\<rparr>)"
    by simp
  from a b pending_state_verifier pending_state_entry show ?thesis
    by simp
qed

text \<open>
  C1 as stated fails on the test "should handle token exchange failure": the lookup
  succeeds, the backend answers with an error, the error is shown, and the pending
  entry is still in the store and in the in-memory map afterwards.
\<close>

theorem handleCallback_failed_exchange_keeps_entry:
  "map_of callback_params ''code'' = Some ''auth-code-123'' \<and>
   map_of callback_params ''state'' = Some ''test-state'' \<and>
   secrets (pending_state\<lparr>network := [NotOk (Some (Some ''Invalid authorization code''))]\<rparr>)
     (TOKEN_KEYS_PKCE_PREFIX @ ''test-state'') = Some ''test-verifier'' \<and>
   shown (snd (handleCallback callback_params
       (pending_state\<lparr>network := [NotOk (Some (Some ''Invalid authorization code''))]\<rparr>))) =
     [ErrorMessage ''Authentication callback failed: '' (Error ''Invalid authorization code'')] \<and>
   secrets (snd (handleCallback callback_params
       (pending_state\<lparr>network := [NotOk (Some (Some ''Invalid authorization code''))]\<rparr>)))
     (TOKEN_KEYS_PKCE_PREFIX @ ''test-state'') = Some ''test-verifier'' \<and>
   pendingAuth (snd (handleCallback callback_params
       (pending_state\<lparr>network := [NotOk (Some (Some ''Invalid authorization code''))]\<rparr>)))
     ''test-state'' = Some (''test-verifier'', ''test-state'')"
proof -
  let ?s = "pending_state\<lparr>network := [NotOk (Some (Some ''Invalid authorization code''))]\<rparr>"
  have ne: "''auth-code-123'' \<noteq> []" "''test-state'' \<noteq> []" "''test-verifier'' \<noteq> []"
    by simp_all
  have run: "handleCallback_try callback_params ?s =
      (Inl (Error ''Invalid authorization code''),
       ?s\<lparr>network := [],
          fetched := [callback_request ''auth-code-123'' ''test-verifier'' ''test-state'' ?s]\<rparr>)"
    by (simp add: handleCallback_try_exchange [OF callback_params_code ne(1) callback_params_state
          ne(2) pending_state_verifier ne(3)] fetch_def or_else_def)
       (simp add: pending_state_def fresh_state_def)
  show ?thesis
    by (simp add: handleCallback_def run showErrorMessage_def console_error_def
        callback_params_code callback_params_state)
       (simp add: pending_state_def fresh_state_def)
qed

text \<open>
  C4, as the code has it. For a callback whose state has no entry in the store,
  \<open>handleCallback\<close> sends no request and changes neither the store nor the
  in-memory map; it shows "Invalid authentication state" when the callback carries
  a non-empty code and a non-empty state, and "Missing authentication parameters"
  when it does not: the check of lines 124-126 comes first.
\<close>

theorem handleCallback_unknown_state:
  assumes "map_of params ''state'' = Some st"
    and "secrets s (TOKEN_KEYS_PKCE_PREFIX @ st) = None"
  shows "fst (handleCallback params s) = Inr () \<and>
         fetched (snd (handleCallback params s)) = fetched s \<and>
         network (snd (handleCallback params s)) = network s \<and>
         secrets (snd (handleCallback params s)) = secrets s \<and>
         pendingAuth (snd (handleCallback params s)) = pendingAuth s \<and>
         executed (snd (handleCallback params s)) = executed s \<and>
         shown (snd (handleCallback params s)) =
           shown s @
             [ErrorMessage ''Authentication callback failed: ''
                (Error (if truthy (map_of params ''code'') \<and> st \<noteq> []
                        then AUTH_ERRORS_INVALID_STATE else AUTH_ERRORS_MISSING_PARAMS))]"
  using assms
  by (simp add: handleCallback_def handleCallback_try_def Let_def truthy_def secrets_get_def
      showErrorMessage_def console_error_def split: option.splits)

theorem handleCallback_unknown_state_witness:
  "map_of callback_params ''state'' = Some ''test-state'' \<and>
   secrets (fresh_state\<lparr>network := [Ok2xx (Some exchanged_tokens)]\<rparr>)
     (TOKEN_KEYS_PKCE_PREFIX @ ''test-state'') = None \<and>
   fetched (snd (handleCallback callback_params
     (fresh_state\<lparr>network := [Ok2xx (Some exchanged_tokens)]\<rparr>))) = [] \<and>
   secrets (snd (handleCallback callback_params
     (fresh_state\<lparr>network := [Ok2xx (Some exchanged_tokens)]\<rparr>))) TOKEN_KEYS_ACCESS_TOKEN = None \<and>
   shown (snd (handleCallback callback_params
     (fresh_state\<lparr>network := [Ok2xx (Some exchanged_tokens)]\<rparr>))) =
     [ErrorMessage ''Authentication callback failed: '' (Error ''Invalid authentication state'')]"
proof -
  let ?s = "fresh_state\<lparr>network := [Ok2xx (Some exchanged_tokens)]\<rparr>"
  have unknown: "secrets ?s (TOKEN_KEYS_PKCE_PREFIX @ ''test-state'') = None"
    by (simp add: fresh_state_def)
  have start: "fetched ?s = []" "shown ?s = []" "secrets ?s TOKEN_KEYS_ACCESS_TOKEN = None"
    by (simp_all add: fresh_state_def)
  from handleCallback_unknown_state [OF callback_params_state unknown] start unknown
  show ?thesis
    by (simp add: callback_params_code callback_params_state truthy_def
        AUTH_ERRORS_INVALID_STATE_def)
qed

text \<open>
  C4 as stated fails on the test "should handle missing authentication parameters":
  the state has no pending entry, the code is missing (or empty), and the message
  is "Missing authentication parameters".
\<close>

theorem handleCallback_unknown_state_missing_code:
  "secrets fresh_state (TOKEN_KEYS_PKCE_PREFIX @ ''test-state'') = None \<and>
   shown (snd (handleCallback [(''state'', ''test-state'')] fresh_state)) =
     [ErrorMessage ''Authentication callback failed: ''
        (Error ''Missing authentication parameters'')] \<and>
   shown (snd (handleCallback [(''code'', ''''), (''state'', ''test-state'')] fresh_state)) =
     [ErrorMessage ''Authentication callback failed: ''
        (Error ''Missing authentication parameters'')]"
  by (simp add: handleCallback_def handleCallback_try_def Let_def truthy_def
      showErrorMessage_def console_error_def fresh_state_def AUTH_ERRORS_MISSING_PARAMS_def)

section \<open>The API client\<close>

text \<open>
  C3, as the code has it. A request that resolved the token \<open>t\<close> receives 401 and
  asks for the token again.
  \<^item> If the token is now missing or still \<open>t\<close>, the client runs
    \<^verbatim>\<open>softcodes.authenticate\<close> and fails with "Authentication required"; nothing
    more is sent.
  \<^item> If it is another token, \<open>request\<close> starts over on what is left: it resolves the
    token once more and sends the request with what it gets.
  \<^item> So when the token has changed once and stays, a second 401 in a row ends in
    "Authentication required" after exactly two requests.
  Nothing counts the retries: a token that changes again after the second 401 is
  followed by a third request.
\<close>

theorem request_retry_on_401:
  assumes "getToken w = (Inr (Some t), w1)" and "t \<noteq> []"
    and "getToken w1 = (Inr nt, w2)"
  shows "(\<not> truthy nt \<or> nt = Some t \<longrightarrow>
            request getToken base ep opts (ApiResponse 401 b # rest) w sent cmds =
              (Inl (Error ''Authentication required''),
               \<lparr>session = w2, api_network = rest,
                api_fetched = sent @ [request_init base ep opts t],
                api_executed = cmds @ [''softcodes.authenticate'']\<rparr>)) \<and>
         (truthy nt \<and> nt \<noteq> Some t \<longrightarrow>
            request getToken base ep opts (ApiResponse 401 b # rest) w sent cmds =
              request getToken base ep opts rest w2 (sent @ [request_init base ep opts t]) cmds) \<and>
         (\<forall>t' w3 w4 b' rest'.
            nt = Some t' \<and> t' \<noteq> [] \<and> t' \<noteq> t \<and>
            getToken w2 = (Inr (Some t'), w3) \<and> getToken w3 = (Inr (Some t'), w4) \<and>
            rest = ApiResponse 401 b' # rest' \<longrightarrow>
            request getToken base ep opts (ApiResponse 401 b # rest) w sent cmds =
              (Inl (Error ''Authentication required''),
               \<lparr>session = w4, api_network = rest',
                api_fetched = sent @ [request_init base ep opts t, request_init base ep opts t'],
                api_executed = cmds @ [''softcodes.authenticate'']\<rparr>))"
proof -
  have unchanged: "request getToken base ep opts (ApiResponse 401 b # rest) w sent cmds =
              (Inl (Error ''Authentication required''),
               \<lparr>session = w2, api_network = rest,
                api_fetched = sent @ [request_init base ep opts t],
                api_executed = cmds @ [''softcodes.authenticate'']\<rparr>)"
    if "\<not> truthy nt \<or> nt = Some t"
    using assms that by (rule request_401_unchanged)
  have changed: "request getToken base ep opts (ApiResponse 401 b # rest) w sent cmds =
              request getToken base ep opts rest w2 (sent @ [request_init base ep opts t]) cmds"
    if "truthy nt \<and> nt \<noteq> Some t"
    using assms that by (auto intro: request_401_changed)
  have stable: "request getToken base ep opts (ApiResponse 401 b # rest) w sent cmds =
              (Inl (Error ''Authentication required''),
               \<lparr>session = w4, api_network = rest',
                api_fetched = sent @ [request_init base ep opts t, request_init base ep opts t'],
                api_executed = cmds @ [''softcodes.authenticate'']\<rparr>)"
    if h: "nt = Some t' \<and> t' \<noteq> [] \<and> t' \<noteq> t \<and>
            getToken w2 = (Inr (Some t'), w3) \<and> getToken w3 = (Inr (Some t'), w4) \<and>
            rest = ApiResponse 401 b' # rest'" for t' w3 w4 b' rest'
  proof -
    from h have "truthy nt \<and> nt \<noteq> Some t" by (simp add: truthy_def)
    then have "request getToken base ep opts (ApiResponse 401 b # rest) w sent cmds =
        request getToken base ep opts rest w2 (sent @ [request_init base ep opts t]) cmds"
      by (rule changed)
    also from h have "\<dots> =
        request getToken base ep opts (ApiResponse 401 b' # rest') w2
          (sent @ [request_init base ep opts t]) cmds"
      by simp
    also from h have "\<dots> =
        (Inl (Error ''Authentication required''),
               \<lparr>session = w4, api_network = rest',
                api_fetched = (sent @ [request_init base ep opts t]) @ [request_init base ep opts t'],
                api_executed = cmds @ [''softcodes.authenticate'']\<rparr>)"
      by (intro request_401_unchanged) auto
    finally show ?thesis by simp
  qed
  from unchanged changed stable show ?thesis by blast
qed

theorem request_retry_on_401_witness:
  "request getAccessToken_interleaved ''https://softcodes.ai'' ''/api/vscode/user/balance''
     no_options [ApiResponse 401 None, ApiResponse 200 (Some (Json None ''balance''))]
     ([], signed_in_state) [] [] =
     (Inl (Error ''Authentication required''),
      \<lparr>session = ([], signed_in_state),
       api_network = [ApiResponse 200 (Some (Json None ''balance''))],
       api_fetched = [request_init ''https://softcodes.ai'' ''/api/vscode/user/balance''
                        no_options ''access-token-123''],
       api_executed = [''softcodes.authenticate'']\<rparr>) \<and>
   request getAccessToken_interleaved ''https://softcodes.ai'' ''/api/vscode/user/balance''
     no_options
     [ApiResponse 401 None, ApiResponse 401 None, ApiResponse 200 (Some (Json None ''balance''))]
     ([None, Some tokens_b, None, None], signed_in_state) [] [] =
     (Inl (Error ''Authentication required''),
      \<lparr>session = ([], storeTokens tokens_b signed_in_state),
       api_network = [ApiResponse 200 (Some (Json None ''balance''))],
       api_fetched = [request_init ''https://softcodes.ai'' ''/api/vscode/user/balance''
                        no_options ''access-token-123'',
                      request_init ''https://softcodes.ai'' ''/api/vscode/user/balance''
                        no_options ''token-b''],
       api_executed = [''softcodes.authenticate'']\<rparr>)"
proof -
  let ?g = getAccessToken_interleaved
  let ?sb = "storeTokens tokens_b signed_in_state"
  have b: "access_token tokens_b = ''token-b''"
    by (simp add: tokens_b_def)
  have ne: "''access-token-123'' \<noteq> []"
    by simp
  have q: "?g ([], signed_in_state) = (Inr (Some ''access-token-123''), ([], signed_in_state))"
    by (rule interleaved_quiet(2) [OF signed_in_access]) simp
  have g1: "?g ([None, Some tokens_b, None, None], signed_in_state) =
      (Inr (Some ''access-token-123''), ([Some tokens_b, None, None], signed_in_state))"
    by (rule interleaved_quiet(1) [OF signed_in_access]) simp
  have g2: "?g ([Some tokens_b, None, None], signed_in_state) =
      (Inr (Some ''token-b''), ([None, None], ?sb))"
    using interleaved_stored [of tokens_b] by (simp add: b)
  have g3: "?g ([None, None], ?sb) = (Inr (Some ''token-b''), ([None], ?sb))"
    using interleaved_quiet(1) [OF storeTokens_access, of tokens_b] by (simp add: b)
  have g4: "?g ([None], ?sb) = (Inr (Some ''token-b''), ([], ?sb))"
    using interleaved_quiet(1) [OF storeTokens_access, of tokens_b] by (simp add: b)
  from request_retry_on_401 [where getToken = "?g" and base = "''https://softcodes.ai''"
      and ep = "''/api/vscode/user/balance''" and opts = no_options and b = None
      and rest = "[ApiResponse 200 (Some (Json None ''balance''))]" and sent = "[]"
      and cmds = "[]", OF q ne q]
  have first: "request ?g ''https://softcodes.ai'' ''/api/vscode/user/balance''
     no_options [ApiResponse 401 None, ApiResponse 200 (Some (Json None ''balance''))]
     ([], signed_in_state) [] [] =
     (Inl (Error ''Authentication required''),
      \<lparr>session = ([], signed_in_state),
       api_network = [ApiResponse 200 (Some (Json None ''balance''))],
       api_fetched = [request_init ''https://softcodes.ai'' ''/api/vscode/user/balance''
                        no_options ''access-token-123''],
       api_executed = [''softcodes.authenticate'']\<rparr>)"
    by simp
  from request_retry_on_401 [where getToken = "?g" and base = "''https://softcodes.ai''"
      and ep = "''/api/vscode/user/balance''" and opts = no_options and b = None
      and rest = "[ApiResponse 401 None, ApiResponse 200 (Some (Json None ''balance''))]"
      and sent = "[]" and cmds = "[]", OF g1 ne g2] g3 g4
  have second: "request ?g ''https://softcodes.ai'' ''/api/vscode/user/balance''
     no_options
     [ApiResponse 401 None, ApiResponse 401 None, ApiResponse 200 (Some (Json None ''balance''))]
     ([None, Some tokens_b, None, None], signed_in_state) [] [] =
     (Inl (Error ''Authentication required''),
      \<lparr>session = ([], ?sb),
       api_network = [ApiResponse 200 (Some (Json None ''balance''))],
       api_fetched = [request_init ''https://softcodes.ai'' ''/api/vscode/user/balance''
                        no_options ''access-token-123'',
                      request_init ''https://softcodes.ai'' ''/api/vscode/user/balance''
                        no_options ''token-b''],
       api_executed = [''softcodes.authenticate'']\<rparr>)"
    by simp
  from first second show ?thesis by simp
qed

text \<open>
  C3 as stated fails when the stored token changes twice: the request of a
  signed-in client gets 401, another flow has stored \<open>tokens_b\<close>, the retry gets 401
  again, another flow has stored \<open>tokens_c\<close>, and the client sends a third request,
  which succeeds. No re-authentication is triggered.
\<close>

theorem request_retries_more_than_once:
  "fst (request getAccessToken_interleaved ''https://softcodes.ai'' ''/api/vscode/user/balance''
          no_options
          [ApiResponse 401 None, ApiResponse 401 None, ApiResponse 200 (Some (Json None ''balance''))]
          ([None, Some tokens_b, None, Some tokens_c, None], signed_in_state) [] []) =
     Inr (Json None ''balance'') \<and>
   map (\<lambda>r. headers r ''Authorization'')
     (api_fetched (snd (request getAccessToken_interleaved ''https://softcodes.ai''
          ''/api/vscode/user/balance'' no_options
          [ApiResponse 401 None, ApiResponse 401 None, ApiResponse 200 (Some (Json None ''balance''))]
          ([None, Some tokens_b, None, Some tokens_c, None], signed_in_state) [] []))) =
     [Some ''Bearer access-token-123'', Some ''Bearer token-b'', Some ''Bearer token-c''] \<and>
   api_executed (snd (request getAccessToken_interleaved ''https://softcodes.ai''
          ''/api/vscode/user/balance'' no_options
          [ApiResponse 401 None, ApiResponse 401 None, ApiResponse 200 (Some (Json None ''balance''))]
          ([None, Some tokens_b, None, Some tokens_c, None], signed_in_state) [] [])) = []"
proof -
  let ?g = getAccessToken_interleaved
  let ?sb = "storeTokens tokens_b signed_in_state"
  let ?sc = "storeTokens tokens_c ?sb"
  let ?r = "request_init ''https://softcodes.ai'' ''/api/vscode/user/balance'' no_options"
  have b: "access_token tokens_b = ''token-b''" and c: "access_token tokens_c = ''token-c''"
    by (simp_all add: tokens_b_def tokens_c_def)
  have g1: "?g ([None, Some tokens_b, None, Some tokens_c, None], signed_in_state) =
      (Inr (Some ''access-token-123''), ([Some tokens_b, None, Some tokens_c, None], signed_in_state))"
    by (rule interleaved_quiet(1) [OF signed_in_access]) simp
  have g2: "?g ([Some tokens_b, None, Some tokens_c, None], signed_in_state) =
      (Inr (Some ''token-b''), ([None, Some tokens_c, None], ?sb))"
    using interleaved_stored [of tokens_b] by (simp add: b)
  have g3: "?g ([None, Some tokens_c, None], ?sb) = (Inr (Some ''token-b''), ([Some tokens_c, None], ?sb))"
    using interleaved_quiet(1) [OF storeTokens_access, of tokens_b] by (simp add: b)
  have g4: "?g ([Some tokens_c, None], ?sb) = (Inr (Some ''token-c''), ([None], ?sc))"
    using interleaved_stored [of tokens_c] by (simp add: c)
  have g5: "?g ([None], ?sc) = (Inr (Some ''token-c''), ([], ?sc))"
    using interleaved_quiet(1) [OF storeTokens_access, of tokens_c] by (simp add: c)
  have "request ?g ''https://softcodes.ai'' ''/api/vscode/user/balance'' no_options
          [ApiResponse 401 None, ApiResponse 401 None, ApiResponse 200 (Some (Json None ''balance''))]
          ([None, Some tokens_b, None, Some tokens_c, None], signed_in_state) [] [] =
        request ?g ''https://softcodes.ai'' ''/api/vscode/user/balance'' no_options
          [ApiResponse 401 None, ApiResponse 200 (Some (Json None ''balance''))]
          ([None, Some tokens_c, None], ?sb) ([] @ [?r ''access-token-123'']) []"
    by (rule request_401_changed [where getToken = "?g", OF g1 _ g2]) (simp_all add: truthy_def)
  also have "\<dots> =
        request ?g ''https://softcodes.ai'' ''/api/vscode/user/balance'' no_options
          [ApiResponse 200 (Some (Json None ''balance''))]
          ([None], ?sc) (([] @ [?r ''access-token-123'']) @ [?r ''token-b'']) []"
    by (rule request_401_changed [where getToken = "?g", OF g3 _ g4]) (simp_all add: truthy_def)
  also have "\<dots> =
        (Inr (Json None ''balance''),
         \<lparr>session = ([], ?sc), api_network = [],
          api_fetched = (([] @ [?r ''access-token-123'']) @ [?r ''token-b'']) @ [?r ''token-c''],
          api_executed = []\<rparr>)"
    by (rule request_200 [where getToken = "?g", OF g5]) (simp_all add: response_ok_def)
  finally show ?thesis
    by (simp add: request_init_def no_options_def)
qed

text \<open>
  With the session manager alone, nothing in between, the token asked for after a
  401 is always the one just used, and the retry is never taken.
\<close>

lemma request_sequential_never_retries:
  assumes "getAccessToken s = (Inr (Some tok), s1)" and "tok \<noteq> []"
  shows "request getAccessToken base ep opts (ApiResponse 401 b # rest) s sent cmds =
     (Inl (Error ''Authentication required''),
      \<lparr>session = s1, api_network = rest,
       api_fetched = sent @ [request_init base ep opts tok],
       api_executed = cmds @ [''softcodes.authenticate'']\<rparr>)"
proof -
  have again: "getAccessToken s1 = (Inr (Some tok), s1)"
    using assms by (rule getAccessToken_settled)
  show ?thesis
    by (rule request_401_unchanged [where getToken = getAccessToken and nt = "Some tok",
          OF assms again]) simp
qed

text \<open>
  C8, as the code has it. Every request that \<open>request\<close> sends is the object
  \<open>request_init\<close> builds for a token resolved from the session manager, the first
  one for the token \<open>getToken\<close> returned. In that object the property
  \<^verbatim>\<open>Authorization\<close> is \<^verbatim>\<open>Bearer\<close> and that token whatever the caller passed: a
  caller's property of exactly that name is overwritten. A caller's property
  whose name differs from it only in letter case is kept as the caller wrote it,
  beside the fixed one. So the bearer token is the only value under that header
  name, as \<^verbatim>\<open>fetch\<close> compares names, exactly when the caller passed no such
  property.
\<close>

theorem request_authorization_header:
  "(\<forall>tok w1. getToken w = (Inr (Some tok), w1) \<and> tok \<noteq> [] \<longrightarrow>
      (\<exists>more. api_fetched (snd (request getToken base ep opts script w [] cmds)) =
         request_init base ep opts tok # more)) \<and>
   (\<forall>r \<in> set (api_fetched (snd (request getToken base ep opts script w [] cmds))).
      \<exists>tok. tok \<noteq> [] \<and> r = request_init base ep opts tok) \<and>
   (\<forall>tok. headers (request_init base ep opts tok) ''Authorization'' = Some (''Bearer '' @ tok)) \<and>
   (\<forall>tok k. k \<noteq> ''Authorization'' \<and> same_header_name k ''Authorization'' \<longrightarrow>
      headers (request_init base ep opts tok) k = caller_headers opts k) \<and>
   ((\<forall>k. k \<noteq> ''Authorization'' \<and> same_header_name k ''Authorization'' \<longrightarrow>
        caller_headers opts k = None) \<longrightarrow>
    (\<forall>tok k v. same_header_name k ''Authorization'' \<and>
        headers (request_init base ep opts tok) k = Some v \<longrightarrow> v = ''Bearer '' @ tok))"
proof (intro conjI allI impI ballI)
  fix tok w1
  assume "getToken w = (Inr (Some tok), w1) \<and> tok \<noteq> []"
  then have resolved: "getToken w = (Inr (Some tok), w1)" and usable: "tok \<noteq> []"
    by simp_all
  from request_first_fetch [where getToken = getToken and sent = "[]", OF resolved usable]
  show "\<exists>more. api_fetched (snd (request getToken base ep opts script w [] cmds)) =
         request_init base ep opts tok # more"
    by simp
next
  fix r
  assume "r \<in> set (api_fetched (snd (request getToken base ep opts script w [] cmds)))"
  then show "\<exists>tok. tok \<noteq> [] \<and> r = request_init base ep opts tok"
    by (rule request_every_sent)
next
  fix tok
  show "headers (request_init base ep opts tok) ''Authorization'' = Some (''Bearer '' @ tok)"
    by (rule request_init_authorization(1))
next
  fix tok k
  assume "k \<noteq> ''Authorization'' \<and> same_header_name k ''Authorization''"
  then have "k \<noteq> ''Authorization''" and "same_header_name k ''Authorization''"
    by simp_all
  then show "headers (request_init base ep opts tok) k = caller_headers opts k"
    by (rule request_init_variant_kept)
next
  fix tok k v
  assume none: "\<forall>k. k \<noteq> ''Authorization'' \<and> same_header_name k ''Authorization'' \<longrightarrow>
        caller_headers opts k = None"
    and "same_header_name k ''Authorization'' \<and>
        headers (request_init base ep opts tok) k = Some v"
  then have "same_header_name k ''Authorization''"
    and "headers (request_init base ep opts tok) k = Some v"
    by simp_all
  with none show "v = ''Bearer '' @ tok"
    by (rule request_init_only_value)
qed

text \<open>
  A caller that passes its own \<^verbatim>\<open>Authorization\<close> header, spelled the same: the
  request carries the bearer token of the session and nothing else under that
  name.
\<close>

theorem request_authorization_header_witness:
  "caller_headers forged_options ''Authorization'' = Some ''Bearer forged'' \<and>
   getAccessToken signed_in_state = (Inr (Some ''access-token-123''), signed_in_state) \<and>
   headers (hd (api_fetched (snd (request getAccessToken ''https://softcodes.ai''
     ''/api/vscode/tasks'' forged_options [ApiResponse 200 (Some (Json None ''task''))]
     signed_in_state [] [])))) ''Authorization'' = Some ''Bearer access-token-123'' \<and>
   \<not> (\<exists>k v. same_header_name k ''Authorization'' \<and>
        headers (hd (api_fetched (snd (request getAccessToken ''https://softcodes.ai''
          ''/api/vscode/tasks'' forged_options [ApiResponse 200 (Some (Json None ''task''))]
          signed_in_state [] [])))) k = Some v \<and>
        v \<noteq> ''Bearer access-token-123'')"
proof -
  let ?sent = "api_fetched (snd (request getAccessToken ''https://softcodes.ai''
     ''/api/vscode/tasks'' forged_options [ApiResponse 200 (Some (Json None ''task''))]
     signed_in_state [] []))"
  let ?r = "request_init ''https://softcodes.ai'' ''/api/vscode/tasks'' forged_options
     ''access-token-123''"
  have forged: "caller_headers forged_options ''Authorization'' = Some ''Bearer forged''"
    by (simp add: caller_headers_def forged_options_def)
  have tok: "getAccessToken signed_in_state = (Inr (Some ''access-token-123''), signed_in_state)"
    by (rule getAccessToken_stored [OF signed_in_access]) simp
  have no_variant: "\<forall>k. k \<noteq> ''Authorization'' \<and> same_header_name k ''Authorization'' \<longrightarrow>
      caller_headers forged_options k = None"
    by (intro allI impI) (simp add: forged_options_no_variant)
  note t = request_authorization_header [where getToken = getAccessToken
      and w = signed_in_state and base = "''https://softcodes.ai''"
      and ep = "''/api/vscode/tasks''" and opts = forged_options
      and script = "[ApiResponse 200 (Some (Json None ''task''))]" and cmds = "[]"]
  from t have first: "\<forall>tok w1. getAccessToken signed_in_state = (Inr (Some tok), w1) \<and> tok \<noteq> [] \<longrightarrow>
      (\<exists>more. ?sent = request_init ''https://softcodes.ai'' ''/api/vscode/tasks''
         forged_options tok # more)"
    by (rule conjunct1)
  from t have fixed: "\<forall>tok. headers (request_init ''https://softcodes.ai'' ''/api/vscode/tasks''
      forged_options tok) ''Authorization'' = Some (''Bearer '' @ tok)"
    by (elim conjE)
  from t no_variant have only: "\<forall>tok k v. same_header_name k ''Authorization'' \<and>
      headers (request_init ''https://softcodes.ai'' ''/api/vscode/tasks'' forged_options tok) k
        = Some v \<longrightarrow> v = ''Bearer '' @ tok"
    by (elim conjE impE)
  from first tok have "\<exists>more. ?sent = ?r # more"
    by simp
  then have hd: "hd ?sent = ?r"
    by auto
  from fixed have a: "headers ?r ''Authorization'' = Some ''Bearer access-token-123''"
    by simp
  from only have b: "\<not> (\<exists>k v. same_header_name k ''Authorization'' \<and> headers ?r k = Some v \<and>
      v \<noteq> ''Bearer access-token-123'')"
    by fastforce
  from forged tok a b show ?thesis
    unfolding hd by (intro conjI)
qed

text \<open>
  C8 as stated fails for a caller that passes \<^verbatim>\<open>authorization\<close> in lower case: the
  object handed to \<^verbatim>\<open>fetch\<close> holds the caller's value under \<^verbatim>\<open>authorization\<close>
  and the session's under \<^verbatim>\<open>Authorization\<close>, two names of one header, so the
  request that leaves carries the caller's value in its \<^verbatim>\<open>Authorization\<close> header
  beside the session's.
\<close>

theorem request_lowercase_authorization_kept:
  "caller_headers lowercase_options ''authorization'' = Some ''Bearer forged'' \<and>
   same_header_name ''authorization'' ''Authorization'' \<and>
   getAccessToken signed_in_state = (Inr (Some ''access-token-123''), signed_in_state) \<and>
   map (\<lambda>r. (headers r ''authorization'', headers r ''Authorization''))
     (api_fetched (snd (request getAccessToken ''https://softcodes.ai'' ''/api/vscode/tasks''
        lowercase_options [ApiResponse 200 (Some (Json None ''task''))]
        signed_in_state [] []))) =
     [(Some ''Bearer forged'', Some ''Bearer access-token-123'')]"
proof -
  have tok: "getAccessToken signed_in_state = (Inr (Some ''access-token-123''), signed_in_state)"
    by (rule getAccessToken_stored [OF signed_in_access]) simp
  have run: "request getAccessToken ''https://softcodes.ai'' ''/api/vscode/tasks''
        lowercase_options [ApiResponse 200 (Some (Json None ''task''))] signed_in_state [] [] =
      (Inr (Json None ''task''),
       \<lparr>session = signed_in_state, api_network = [],
        api_fetched = [] @ [request_init ''https://softcodes.ai'' ''/api/vscode/tasks''
                              lowercase_options ''access-token-123''],
        api_executed = []\<rparr>)"
    by (rule request_200 [where getToken = getAccessToken, OF tok]) (simp_all add: response_ok_def)
  have caller: "caller_headers lowercase_options ''authorization'' = Some ''Bearer forged''"
    by (simp add: caller_headers_def lowercase_options_def)
  have sent: "map (\<lambda>r. (headers r ''authorization'', headers r ''Authorization''))
     (api_fetched (snd (request getAccessToken ''https://softcodes.ai'' ''/api/vscode/tasks''
        lowercase_options [ApiResponse 200 (Some (Json None ''task''))]
        signed_in_state [] []))) =
     [(Some ''Bearer forged'', Some ''Bearer access-token-123'')]"
    unfolding run by (simp add: request_init_def lowercase_options_def)
  from caller same_name_lowercase tok sent show ?thesis
    by (intro conjI)
qed

end
